theory Spec2Isabelle
  imports Complex_Main "HOL-Library.Log_Nat"
begin

section \<open>Numbers\<close>

text \<open>
  Timestamps are integer epoch milliseconds and are modelled as \<open>int\<close>; every sum and
  difference the program takes of them is exact. Prices are JavaScript numbers, that
  is, IEEE 754 binary64 values. The data model takes prices as finite, so a price is a
  value of the type \<open>double\<close> of finite binary64 numbers (a JSON number too large for
  binary64, which would parse to an infinity, is outside the model). The results of
  arithmetic are values of \<open>jsnum\<close>, which adds the two infinities and NaN. The two
  zeros are identified: the program never divides by a negative zero, because each of
  its three divisors comes out of an \<open>||\<close> whose fallback replaces a zero of either
  sign.
\<close>

subsection \<open>Rounding to binary64\<close>

text \<open>\<open>expo x\<close> is the binary exponent of a positive real: the \<open>e\<close> with
  \<open>2^e \<le> x < 2^(e+1)\<close>.\<close>

definition expo :: "real \<Rightarrow> int" where
  "expo x = (if 1 \<le> x then bitlen \<lfloor>x\<rfloor> - 1 else - bitlen (\<lceil>1 / x\<rceil> - 1))"

text \<open>The least exponent of a normal number.\<close>

definition emin :: int where
  "emin = - 1022"

text \<open>The spacing of the binary64 numbers around \<open>x\<close>: 52 fraction bits below the
  exponent of \<open>x\<close>, and below \<open>emin\<close> in the subnormal range.\<close>

definition quantum :: "real \<Rightarrow> real" where
  "quantum x = 2 powi (max (expo \<bar>x\<bar>) emin - 52)"

text \<open>The nearest integer, a tie going to the even one.\<close>

definition roundEven :: "real \<Rightarrow> int" where
  "roundEven r =
     (if r - of_int \<lfloor>r\<rfloor> < 1 / 2 then \<lfloor>r\<rfloor>
      else if 1 / 2 < r - of_int \<lfloor>r\<rfloor> then \<lfloor>r\<rfloor> + 1
      else if even \<lfloor>r\<rfloor> then \<lfloor>r\<rfloor> else \<lfloor>r\<rfloor> + 1)"

text \<open>Round to nearest, ties to even, with the exponent unbounded above.\<close>

definition nearest :: "real \<Rightarrow> real" where
  "nearest x = sgn x * (of_int (roundEven (\<bar>x\<bar> / quantum x)) * quantum x)"

text \<open>A real is a finite binary64 number when it is below \<open>2^1024\<close> in magnitude
  and a whole multiple of its own spacing.\<close>

definition isDouble :: "real \<Rightarrow> bool" where
  "isDouble x \<longleftrightarrow> \<bar>x\<bar> < 2 ^ 1024 \<and> of_int \<lfloor>x / quantum x\<rfloor> = x / quantum x"

typedef double = "{x. isDouble x}"
  morphisms val Abs_double
  by (rule exI[of _ 0]) (simp add: isDouble_def)

text \<open>
  \<open>dbl x\<close> is the binary64 number nearest to \<open>x\<close>, for an \<open>x\<close> that does not
  overflow. It is what a numeric literal of the source denotes; \<open>dbl 0\<close> stands in
  where \<open>x\<close> overflows, a case \<open>fl\<close> below never passes on.
\<close>

definition dbl :: "real \<Rightarrow> double" where
  "dbl x = Abs_double (if \<bar>nearest x\<bar> < 2 ^ 1024 then nearest x else 0)"

datatype jsnum = Fin double | PInf | NInf | NaN

text \<open>The result of an operation whose exact value is the real \<open>x\<close>: the nearest
  binary64 number, or an infinity when rounding carries it to \<open>2^1024\<close> or beyond.\<close>

definition fl :: "real \<Rightarrow> jsnum" where
  "fl x = (if \<bar>nearest x\<bar> < 2 ^ 1024 then Fin (dbl x) else if 0 < x then PInf else NInf)"

text \<open>\<open>a - b\<close> on two finite numbers.\<close>

definition js_sub :: "double \<Rightarrow> double \<Rightarrow> jsnum" where
  "js_sub a b = fl (val a - val b)"

text \<open>\<open>x / b\<close> for a finite \<open>b\<close>: a zero divisor gives an infinity with the sign of
  the dividend, and \<open>0 / 0\<close> gives NaN.\<close>

fun js_div :: "jsnum \<Rightarrow> double \<Rightarrow> jsnum" where
  "js_div (Fin a) b =
     (if val b \<noteq> 0 then fl (val a / val b)
      else if 0 < val a then PInf
      else if val a < 0 then NInf
      else NaN)"
| "js_div PInf b = (if val b < 0 then NInf else PInf)"
| "js_div NInf b = (if val b < 0 then PInf else NInf)"
| "js_div NaN b = NaN"

text \<open>\<open>x * c\<close> for a finite \<open>c\<close>.\<close>

fun js_mul :: "jsnum \<Rightarrow> double \<Rightarrow> jsnum" where
  "js_mul (Fin a) c = fl (val a * val c)"
| "js_mul PInf c = (if 0 < val c then PInf else if val c < 0 then NInf else NaN)"
| "js_mul NInf c = (if 0 < val c then NInf else if val c < 0 then PInf else NaN)"
| "js_mul NaN c = NaN"

fun isFinite :: "jsnum \<Rightarrow> bool" where
  "isFinite (Fin a) = True"
| "isFinite PInf = False"
| "isFinite NInf = False"
| "isFinite NaN = False"

text \<open>\<open>x?.price || d\<close>: the fallback \<open>d\<close> is taken when the element is missing
  (\<open>undefined\<close>) and also when its price is the falsy number \<open>0\<close>.\<close>

fun orElse :: "double option \<Rightarrow> double \<Rightarrow> double" where
  "orElse None d = d"
| "orElse (Some a) d = (if val a = 0 then d else a)"

section \<open>Data model\<close>

record PricePoint =
  timestamp :: int
  date :: string
  price :: double

record HalvingEvent =
  date :: string
  blockHeight :: int
  cycle :: int
  priceAtHalving :: double

record PreHalvingData =
  days :: int
  startPrice :: double
  halvingPrice :: double
  percentageGain :: jsnum

record PostHalvingData =
  days :: int
  halvingPrice :: double
  peakPrice :: double
  peakDate :: string
  percentageGain :: jsnum
  daysToTop :: int

record CrashData =
  crashDate :: string
  bottomPrice :: double
  percentageFromPeak :: jsnum

record CycleAnalysis =
  cycle :: int
  halvingDate :: string
  preHalvingData :: PreHalvingData
  postHalvingData :: PostHalvingData
  crashData :: CrashData

section \<open>The halving table and its timestamps\<close>

definition halvingEvents :: "HalvingEvent list" where
  "halvingEvents =
     [\<lparr>date = ''2012-11-28'', blockHeight = 210000, cycle = 1, priceAtHalving = dbl 12.35\<rparr>,
      \<lparr>date = ''2016-07-09'', blockHeight = 420000, cycle = 2, priceAtHalving = dbl 650.63\<rparr>,
      \<lparr>date = ''2020-05-11'', blockHeight = 630000, cycle = 3, priceAtHalving = dbl 8821.42\<rparr>,
      \<lparr>date = ''2024-04-19'', blockHeight = 840000, cycle = 4, priceAtHalving = dbl 63812.00\<rparr>]"

text \<open>
  \<open>new Date(s).getTime()\<close> for a date-only string \<open>YYYY-MM-DD\<close>, the only form in
  the table: midnight UTC of that civil day, in milliseconds since the epoch. Other
  strings are outside this model of the built-in.
\<close>

definition digit :: "char \<Rightarrow> int" where
  "digit c = int (of_char c) - 48"

fun number :: "string \<Rightarrow> int" where
  "number cs = foldl (\<lambda>n c. 10 * n + digit c) 0 cs"

definition daysFromCivil :: "int \<Rightarrow> int \<Rightarrow> int \<Rightarrow> int" where
  "daysFromCivil y m d =
     (let y' = (if m \<le> 2 then y - 1 else y);
          era = y' div 400;
          yoe = y' - era * 400;
          doy = (153 * ((m + 9) mod 12) + 2) div 5 + d - 1;
          doe = yoe * 365 + yoe div 4 - yoe div 100 + doy
      in era * 146097 + doe - 719468)"

definition getTime :: "string \<Rightarrow> int" where
  "getTime s =
     daysFromCivil (number (take 4 s)) (number (take 2 (drop 5 s))) (number (take 2 (drop 8 s)))
       * (24 * 60 * 60 * 1000)"

section \<open>The backtest\<close>

text \<open>
  The locals of the \<open>forEach\<close> callback of \<open>performBacktest\<close>, one definition each,
  as functions of the series \<open>data\<close>, the event \<open>halving\<close> and its timestamp
  \<open>T\<close> (the local \<open>halvingTimestamp\<close>). A local whose name is also a field of the
  result carries the suffix \<open>_of\<close>.
\<close>

definition preHalvingStart :: "int \<Rightarrow> int" where
  "preHalvingStart T = T - (365 * 24 * 60 * 60 * 1000)"

definition preHalvingDataPoints :: "PricePoint list \<Rightarrow> int \<Rightarrow> PricePoint list" where
  "preHalvingDataPoints data T =
     filter (\<lambda>d. timestamp d \<ge> preHalvingStart T \<and> timestamp d \<le> T) data"

text \<open>\<open>xs[i]?.price\<close>: \<open>undefined\<close> when the index is out of range.\<close>

definition priceAt :: "PricePoint list \<Rightarrow> int \<Rightarrow> double option" where
  "priceAt xs i = (if 0 \<le> i \<and> i < int (length xs) then Some (price (xs ! nat i)) else None)"

definition startPrice_of :: "PricePoint list \<Rightarrow> int \<Rightarrow> double" where
  "startPrice_of data T = orElse (priceAt (preHalvingDataPoints data T) 0) (dbl 0)"

definition halvingPrice_of :: "PricePoint list \<Rightarrow> HalvingEvent \<Rightarrow> int \<Rightarrow> double" where
  "halvingPrice_of data halving T =
     orElse (priceAt (preHalvingDataPoints data T) (int (length (preHalvingDataPoints data T)) - 1))
            (priceAtHalving halving)"

definition preHalvingGain :: "PricePoint list \<Rightarrow> HalvingEvent \<Rightarrow> int \<Rightarrow> jsnum" where
  "preHalvingGain data halving T =
     js_mul (js_div (js_sub (halvingPrice_of data halving T) (startPrice_of data T))
                    (startPrice_of data T)) (dbl 100)"

definition postHalvingEnd :: "int \<Rightarrow> int" where
  "postHalvingEnd T = T + (730 * 24 * 60 * 60 * 1000)"

definition postHalvingDataPoints :: "PricePoint list \<Rightarrow> int \<Rightarrow> PricePoint list" where
  "postHalvingDataPoints data T =
     filter (\<lambda>d. timestamp d > T \<and> timestamp d \<le> postHalvingEnd T) data"

text \<open>\<open>xs[0] || dflt\<close> on objects: an object is never falsy.\<close>

fun firstOr :: "PricePoint list \<Rightarrow> PricePoint \<Rightarrow> PricePoint" where
  "firstOr [] dflt = dflt"
| "firstOr (x # xs) dflt = x"

definition higher :: "PricePoint \<Rightarrow> PricePoint \<Rightarrow> PricePoint" where
  "higher max_p point = (if val (price point) > val (price max_p) then point else max_p)"

definition lower :: "PricePoint \<Rightarrow> PricePoint \<Rightarrow> PricePoint" where
  "lower min_p point = (if val (price point) < val (price min_p) then point else min_p)"

definition peak :: "PricePoint list \<Rightarrow> int \<Rightarrow> PricePoint" where
  "peak data T =
     foldl higher
       (firstOr (postHalvingDataPoints data T) \<lparr>timestamp = 0, date = '''', price = dbl 0\<rparr>)
       (postHalvingDataPoints data T)"

definition peakPrice_of :: "PricePoint list \<Rightarrow> int \<Rightarrow> double" where
  "peakPrice_of data T = orElse (Some (price (peak data T))) (dbl 0)"

text \<open>\<open>peak?.date || ''\<close>: the fallback can only replace the empty string by
  itself.\<close>

definition peakDate_of :: "PricePoint list \<Rightarrow> int \<Rightarrow> string" where
  "peakDate_of data T = PricePoint.date (peak data T)"

text \<open>\<open>Math.floor\<close> of a quotient of integers: integer division, which rounds
  towards minus infinity. Time values are whole numbers below \<open>2^53\<close> in magnitude,
  where the rounding of the binary64 quotient cannot carry it across an integer.\<close>

definition daysToTop_of :: "PricePoint list \<Rightarrow> int \<Rightarrow> int" where
  "daysToTop_of data T = (timestamp (peak data T) - T) div (24 * 60 * 60 * 1000)"

definition postHalvingGain :: "PricePoint list \<Rightarrow> HalvingEvent \<Rightarrow> int \<Rightarrow> jsnum" where
  "postHalvingGain data halving T =
     js_mul (js_div (js_sub (peakPrice_of data T) (halvingPrice_of data halving T))
                    (halvingPrice_of data halving T)) (dbl 100)"

definition afterPeak :: "PricePoint list \<Rightarrow> int \<Rightarrow> PricePoint list" where
  "afterPeak data T = filter (\<lambda>d. timestamp d > timestamp (peak data T)) data"

definition bottomAfterPeak :: "PricePoint list \<Rightarrow> int \<Rightarrow> PricePoint" where
  "bottomAfterPeak data T =
     foldl lower
       (firstOr (afterPeak data T) \<lparr>timestamp = 0, date = '''', price = peakPrice_of data T\<rparr>)
       (take 365 (afterPeak data T))"

definition crashPercentage :: "PricePoint list \<Rightarrow> int \<Rightarrow> jsnum" where
  "crashPercentage data T =
     js_mul (js_div (js_sub (price (bottomAfterPeak data T)) (peakPrice_of data T))
                    (peakPrice_of data T)) (dbl 100)"

text \<open>The record pushed for one event. The field \<open>days\<close> of the post-halving part
  is the length of the post-window.\<close>

definition analysis :: "PricePoint list \<Rightarrow> HalvingEvent \<Rightarrow> int \<Rightarrow> CycleAnalysis" where
  "analysis data halving T =
     \<lparr>cycle = HalvingEvent.cycle halving,
      halvingDate = HalvingEvent.date halving,
      preHalvingData =
        \<lparr>PreHalvingData.days = 365,
         startPrice = startPrice_of data T,
         halvingPrice = halvingPrice_of data halving T,
         percentageGain = preHalvingGain data halving T\<rparr>,
      postHalvingData =
        \<lparr>days = int (length (postHalvingDataPoints data T)),
         halvingPrice = halvingPrice_of data halving T,
         peakPrice = peakPrice_of data T,
         peakDate = peakDate_of data T,
         percentageGain = postHalvingGain data halving T,
         daysToTop = daysToTop_of data T\<rparr>,
      crashData =
        \<lparr>crashDate = PricePoint.date (bottomAfterPeak data T),
         bottomPrice = price (bottomAfterPeak data T),
         percentageFromPeak = crashPercentage data T\<rparr>\<rparr>"

text \<open>The list \<open>analyses\<close> built by the loop, over any table and over the fixed one.\<close>

definition analysesOver :: "HalvingEvent list \<Rightarrow> PricePoint list \<Rightarrow> CycleAnalysis list" where
  "analysesOver events data =
     map (\<lambda>halving. analysis data halving (getTime (HalvingEvent.date halving))) events"

definition analyses :: "PricePoint list \<Rightarrow> CycleAnalysis list" where
  "analyses data = analysesOver halvingEvents data"

section \<open>The component state and the loader\<close>

text \<open>
  The three state cells of the component \<open>Home\<close>, and the messages written with
  \<open>console.error\<close>.
\<close>

record HomeState =
  priceData :: "PricePoint list"
  cycleAnalysis :: "CycleAnalysis list"
  loading :: bool
  console :: "string list"

definition initialState :: HomeState where
  "initialState = \<lparr>priceData = [], cycleAnalysis = [], loading = True, console = []\<rparr>"

text \<open>\<open>performBacktest\<close> starts from a fresh list, reads only its argument and the
  table, and stores the list with \<open>setCycleAnalysis\<close>.\<close>

definition performBacktest :: "PricePoint list \<Rightarrow> HomeState \<Rightarrow> HomeState" where
  "performBacktest data s = s\<lparr>cycleAnalysis := analyses data\<rparr>"

text \<open>
  What the single request can come to: \<open>fetch\<close> rejects, \<open>response.json()\<close>
  rejects, or a JSON value arrives whose \<open>prices\<close> member is an array of pairs
  (each number already the binary64 value the parser made of it) or is missing
  (reading \<open>.map\<close> of \<open>undefined\<close> throws).
\<close>

datatype response = NetworkError | NotJson | Json "(int \<times> double) list option"

text \<open>
  \<open>data.prices.map(...)\<close>. The formatter \<open>format(new Date(t), 'yyyy-MM-dd')\<close> belongs
  to a library and depends on the time zone, so it is a parameter \<open>fmt\<close>; it throws
  on a time value that is not a valid date, which is \<open>None\<close> here and aborts the map.
\<close>

fun formatted :: "(int \<Rightarrow> string option) \<Rightarrow> (int \<times> double) list \<Rightarrow> PricePoint list option" where
  "formatted fmt [] = Some []"
| "formatted fmt (item # items) =
     (case fmt (fst item) of
        None \<Rightarrow> None
      | Some d \<Rightarrow>
          (case formatted fmt items of
             None \<Rightarrow> None
           | Some ps \<Rightarrow> Some (\<lparr>timestamp = fst item, date = d, price = snd item\<rparr> # ps)))"

fun formattedData :: "(int \<Rightarrow> string option) \<Rightarrow> response \<Rightarrow> PricePoint list option" where
  "formattedData fmt NetworkError = None"
| "formattedData fmt NotJson = None"
| "formattedData fmt (Json None) = None"
| "formattedData fmt (Json (Some items)) = formatted fmt items"

text \<open>The \<open>try\<close> block runs to its end or not at all past the map; the \<open>catch\<close>
  block logs and clears \<open>loading\<close>.\<close>

definition fetchHistoricalData :: "(int \<Rightarrow> string option) \<Rightarrow> response \<Rightarrow> HomeState \<Rightarrow> HomeState" where
  "fetchHistoricalData fmt r s =
     (case formattedData fmt r of
        Some fd \<Rightarrow> (performBacktest fd (s\<lparr>priceData := fd\<rparr>))\<lparr>loading := False\<rparr>
      | None \<Rightarrow> s\<lparr>console := console s @ [''Error fetching data:''], loading := False\<rparr>)"

definition getChartData :: "HomeState \<Rightarrow> PricePoint list" where
  "getChartData s =
     map (\<lambda>d. \<lparr>timestamp = timestamp d, date = PricePoint.date d, price = price d\<rparr>) (priceData s)"

text \<open>What \<open>Home\<close> returns: the loading indicator while \<open>loading\<close> holds, otherwise
  the page with its chart over the series and one card per analysis.\<close>

datatype view = LoadingIndicator | Dashboard "PricePoint list" "CycleAnalysis list"

definition render :: "HomeState \<Rightarrow> view" where
  "render s = (if loading s then LoadingIndicator else Dashboard (getChartData s) (cycleAnalysis s))"

text \<open>The session: the effect runs \<open>fetchHistoricalData\<close> once, on the initial state.\<close>

definition session :: "(int \<Rightarrow> string option) \<Rightarrow> response \<Rightarrow> HomeState" where
  "session fmt r = fetchHistoricalData fmt r initialState"

section \<open>Sample inputs\<close>

text \<open>
  Small inputs at which the theorems below are instantiated: an event with timestamp
  \<open>1000\<close>, a series around it with a tie at the maximum, a prefix of that series, a
  series whose only point is priced \<open>0\<close> on the day of the first halving, a series
  whose only point is stamped \<open>0\<close>, a series that ends the day before the first
  halving, and a formatter that throws on a negative time value.
\<close>

definition sampleEvent :: HalvingEvent where
  "sampleEvent = \<lparr>date = ''1970-01-01'', blockHeight = 1, cycle = 1, priceAtHalving = dbl 7\<rparr>"

definition sampleSeries :: "PricePoint list" where
  "sampleSeries =
     [\<lparr>timestamp = 1000, date = ''a'', price = dbl 4\<rparr>,
      \<lparr>timestamp = 1001, date = ''b'', price = dbl 5\<rparr>,
      \<lparr>timestamp = 1002, date = ''c'', price = dbl 9\<rparr>,
      \<lparr>timestamp = 1003, date = ''d'', price = dbl 9\<rparr>,
      \<lparr>timestamp = 1004, date = ''e'', price = dbl 3\<rparr>]"

definition shortSeries :: "PricePoint list" where
  "shortSeries =
     [\<lparr>timestamp = 1000, date = ''a'', price = dbl 4\<rparr>,
      \<lparr>timestamp = 1001, date = ''b'', price = dbl 5\<rparr>]"

definition zeroPriceSeries :: "PricePoint list" where
  "zeroPriceSeries = [\<lparr>timestamp = 1354060800000, date = ''2012-11-28'', price = dbl 0\<rparr>]"

definition epochSeries :: "PricePoint list" where
  "epochSeries = [\<lparr>timestamp = 0, date = ''1970-01-01'', price = dbl 5\<rparr>]"

definition dayBeforeSeries :: "PricePoint list" where
  "dayBeforeSeries = [\<lparr>timestamp = 1353974400000, date = ''2012-11-27'', price = dbl 10\<rparr>]"

definition sampleFormat :: "int \<Rightarrow> string option" where
  "sampleFormat t = (if 0 \<le> t then Some ''1970-01-01'' else None)"

section \<open>Binary64 rounding is well defined\<close>

text \<open>
  The exponent brackets its argument, so the spacing is that of binary64; rounding
  therefore lands on a binary64 number unless it overflows, and leaves a binary64
  number as it is.
\<close>

lemma expo_bounds_ge1:
  assumes "1 \<le> x"
  shows "2 powi expo x \<le> x \<and> x < 2 powi (expo x + 1)"
proof -
  let ?n = "\<lfloor>x\<rfloor>"
  have n: "0 < ?n" using assms by simp
  from bitlen_bounds[OF n] have lo: "2 ^ nat (bitlen ?n - 1) \<le> ?n" and hi: "?n < 2 ^ nat (bitlen ?n)"
    by simp_all
  have pos: "1 \<le> bitlen ?n" using n by (simp add: bitlen_def floorlog_def)
  have e: "expo x = bitlen ?n - 1" using assms by (simp add: expo_def)
  have "(2::real) powi (bitlen ?n - 1) = 2 ^ nat (bitlen ?n - 1)"
    using pos by (simp add: power_int_nonneg_exp)
  also have "\<dots> = of_int (2 ^ nat (bitlen ?n - 1))" by simp
  also have "\<dots> \<le> of_int ?n" using lo by (simp only: of_int_le_iff)
  also have "\<dots> \<le> x" by simp
  finally have a: "2 powi expo x \<le> x" by (simp add: e)
  have "?n + 1 \<le> 2 ^ nat (bitlen ?n)" using hi by simp
  then have "(of_int (?n + 1)::real) \<le> of_int (2 ^ nat (bitlen ?n))" by (simp only: of_int_le_iff)
  moreover have "x < of_int (?n + 1)" by linarith
  ultimately have "x < of_int (2 ^ nat (bitlen ?n))" by linarith
  also have "\<dots> = 2 powi (bitlen ?n)" using pos by (simp add: power_int_nonneg_exp)
  finally have b: "x < 2 powi (expo x + 1)" by (simp add: e)
  from a b show ?thesis ..
qed

lemma expo_bounds_lt1:
  assumes "0 < x" and "x < 1"
  shows "2 powi expo x \<le> x \<and> x < 2 powi (expo x + 1)"
proof -
  let ?m = "\<lceil>1 / x\<rceil> - 1"
  let ?j = "bitlen ?m"
  have inv: "1 < 1 / x" using assms by simp
  then have m: "0 < ?m" by linarith
  from bitlen_bounds[OF m] have lo: "2 ^ nat (?j - 1) \<le> ?m" and hi: "?m < 2 ^ nat ?j"
    by simp_all
  have pos: "1 \<le> ?j" using m by (simp add: bitlen_def floorlog_def)
  have e: "expo x = - ?j" using assms by (simp add: expo_def)
  have "1 / x \<le> of_int (?m + 1)" by simp
  also have "\<dots> \<le> of_int (2 ^ nat ?j)" using hi by (simp only: of_int_le_iff)
  finally have "1 / x \<le> 2 ^ nat ?j" by simp
  then have "1 / 2 ^ nat ?j \<le> x" using assms
    by (simp add: field_simps)
  moreover have "(2::real) powi (- ?j) = 1 / 2 ^ nat ?j"
    using pos by (simp add: power_int_minus_divide power_int_nonneg_exp)
  ultimately have a: "2 powi expo x \<le> x" by (simp add: e)
  have "of_int ?m < 1 / x" by linarith
  moreover have "(of_int (2 ^ nat (?j - 1))::real) \<le> of_int ?m" using lo by (simp only: of_int_le_iff)
  ultimately have "2 ^ nat (?j - 1) < 1 / x" by simp
  then have "x < 1 / 2 ^ nat (?j - 1)" using assms by (simp add: field_simps)
  moreover have "(2::real) powi (- ?j + 1) = 1 / 2 ^ nat (?j - 1)"
  proof -
    have "- ?j + 1 = - (?j - 1)" by simp
    then have "(2::real) powi (- ?j + 1) = 1 / 2 powi (?j - 1)"
      by (simp only: power_int_minus_divide)
    then show ?thesis using pos by (simp add: power_int_nonneg_exp)
  qed
  ultimately have b: "x < 2 powi (expo x + 1)" by (simp add: e)
  from a b show ?thesis ..
qed

lemma expo_bounds:
  assumes "0 < x"
  shows "2 powi expo x \<le> x \<and> x < 2 powi (expo x + 1)"
  using assms expo_bounds_ge1[of x] expo_bounds_lt1[of x] by (cases "1 \<le> x") simp_all

lemma expo_unique:
  assumes "0 < y" and "2 powi k \<le> y" and "y < 2 powi (k + 1)"
  shows "expo y = k"
proof (rule ccontr)
  assume ne: "expo y \<noteq> k"
  from expo_bounds[OF assms(1)] have lo: "2 powi expo y \<le> y" and hi: "y < 2 powi (expo y + 1)"
    by simp_all
  show False
  proof (cases "expo y < k")
    case True
    then have "expo y + 1 \<le> k" by simp
    then have "(2::real) powi (expo y + 1) \<le> 2 powi k" by (simp add: power_int_increasing)
    with hi assms(2) show False by linarith
  next
    case False
    with ne have "k + 1 \<le> expo y" by simp
    then have "(2::real) powi (k + 1) \<le> 2 powi expo y" by (simp add: power_int_increasing)
    with lo assms(3) show False by linarith
  qed
qed

lemma pow2_mono: "a \<le> b \<Longrightarrow> (2::real) powi a \<le> 2 powi b"
  by (rule power_int_increasing) simp_all

lemma pow2_strict: "a < b \<Longrightarrow> (2::real) powi a < 2 powi b"
  by (rule power_int_strict_increasing) simp_all

lemma quantum_pos: "0 < quantum x"
  by (simp add: quantum_def)

lemma quantum_minus: "quantum (- x) = quantum x"
  by (simp add: quantum_def)

lemma quantum_normal:
  assumes "0 < y" and "emin \<le> k" and "2 powi k \<le> y" and "y < 2 powi (k + 1)"
  shows "quantum y = 2 powi (k - 52)"
proof -
  have "expo y = k" using assms(1,3,4) by (rule expo_unique)
  then show ?thesis using assms(1,2) by (simp add: quantum_def max_def)
qed

lemma quantum_subnormal:
  assumes "0 < y" and "y < 2 powi emin"
  shows "quantum y = 2 powi (emin - 52)"
proof -
  from expo_bounds[OF assms(1)] have "2 powi expo y \<le> y" by simp
  with assms(2) have lt: "(2::real) powi expo y < 2 powi emin" by linarith
  have "expo y < emin"
  proof (rule ccontr)
    assume "\<not> expo y < emin"
    then have "(2::real) powi emin \<le> 2 powi expo y" by (intro pow2_mono) simp
    with lt show False by linarith
  qed
  then show ?thesis using assms(1) by (simp add: quantum_def max_def)
qed

lemma roundEven_of_int: "roundEven (of_int n) = n"
  by (simp add: roundEven_def)

lemma roundEven_ge: "of_int a \<le> r \<Longrightarrow> a \<le> roundEven r"
proof -
  assume "of_int a \<le> r"
  then have "a \<le> \<lfloor>r\<rfloor>" by (simp add: le_floor_iff)
  then show ?thesis by (simp add: roundEven_def)
qed

lemma roundEven_le: "r \<le> of_int b \<Longrightarrow> roundEven r \<le> b"
proof -
  assume le: "r \<le> of_int b"
  show ?thesis
  proof (cases "r = of_int b")
    case True
    then show ?thesis by (simp add: roundEven_of_int)
  next
    case False
    with le have "r < of_int b" by simp
    then have "\<lfloor>r\<rfloor> < b" by (simp add: floor_less_iff)
    then show ?thesis by (simp add: roundEven_def)
  qed
qed

lemma powi_split:
  "(2::real) powi k = 2 ^ 52 * 2 powi (k - 52)"
  "(2::real) powi (k + 1) = 2 ^ 53 * 2 powi (k - 52)"
  "(2::real) powi (k + 1 - 52) = 2 * 2 powi (k - 52)"
proof -
  have "k = 52 + (k - 52)" by simp
  then have "(2::real) powi k = 2 powi (52 + (k - 52))" by (rule arg_cong)
  also have "\<dots> = 2 powi 52 * 2 powi (k - 52)" by (rule power_int_add) simp
  finally show "(2::real) powi k = 2 ^ 52 * 2 powi (k - 52)" by simp
  have "k + 1 = 53 + (k - 52)" by simp
  then have "(2::real) powi (k + 1) = 2 powi (53 + (k - 52))" by (rule arg_cong)
  also have "\<dots> = 2 powi 53 * 2 powi (k - 52)" by (rule power_int_add) simp
  finally show "(2::real) powi (k + 1) = 2 ^ 53 * 2 powi (k - 52)" by simp
  have "k + 1 - 52 = 1 + (k - 52)" by simp
  then have "(2::real) powi (k + 1 - 52) = 2 powi (1 + (k - 52))" by (rule arg_cong)
  also have "\<dots> = 2 powi 1 * 2 powi (k - 52)" by (rule power_int_add) simp
  finally show "(2::real) powi (k + 1 - 52) = 2 * 2 powi (k - 52)" by simp
qed

lemma isDouble_0: "isDouble 0"
  by (simp add: isDouble_def)

lemma isDouble_minus: "isDouble (- x) = isDouble x"
proof -
  have "of_int \<lfloor>- (x / quantum x)\<rfloor> = - (x / quantum x) \<longleftrightarrow>
      of_int \<lfloor>x / quantum x\<rfloor> = x / quantum x"
    by (metis Ints_minus Ints_of_int add.inverse_inverse of_int_floor)
  then show ?thesis by (simp add: isDouble_def quantum_minus)
qed

lemma isDouble_multiple:
  assumes "0 < y" and "y < 2 ^ 1024" and "y = of_int n * quantum y"
  shows "isDouble y"
proof -
  have "y / quantum y = of_int n" using assms(3) quantum_pos[of y]
    by (metis less_irrefl nonzero_mult_div_cancel_right)
  then show ?thesis using assms(1,2) by (simp add: isDouble_def)
qed

lemma round_pos_isDouble:
  assumes x: "0 < x"
    and lim: "of_int (roundEven (x / quantum x)) * quantum x < 2 ^ 1024"
  shows "isDouble (of_int (roundEven (x / quantum x)) * quantum x)"
proof -
  let ?e = "expo x"
  let ?q = "quantum x"
  let ?n = "roundEven (x / ?q)"
  let ?y = "of_int ?n * ?q"
  have q: "0 < ?q" by (rule quantum_pos)
  from expo_bounds[OF x] have lo: "2 powi ?e \<le> x" and hi: "x < 2 powi (?e + 1)" by simp_all
  show ?thesis
  proof (cases "emin \<le> ?e")
    case True
    then have qe: "?q = 2 powi (?e - 52)" using x by (simp add: quantum_def max_def)
    have "2 ^ 52 * ?q \<le> x" using lo powi_split(1)[of ?e] by (simp add: qe)
    then have "of_int (2 ^ 52) \<le> x / ?q" using q by (simp add: pos_le_divide_eq)
    then have n_lo: "2 ^ 52 \<le> ?n" by (rule roundEven_ge)
    have "x < 2 ^ 53 * ?q" using hi powi_split(2)[of ?e] by (simp add: qe)
    then have "x / ?q \<le> of_int (2 ^ 53)" using q by (simp add: pos_divide_le_eq)
    then have n_hi: "?n \<le> 2 ^ 53" by (rule roundEven_le)
    have ypos: "0 < ?y" using n_lo q by simp
    have y_lo: "2 powi ?e \<le> ?y"
    proof -
      have "(2 ^ 52::real) \<le> of_int ?n" using n_lo by (metis of_int_le_iff of_int_numeral of_int_power)
      then have "2 ^ 52 * ?q \<le> ?y" using q by simp
      then show ?thesis using powi_split(1)[of ?e] by (simp add: qe)
    qed
    show ?thesis
    proof (cases "?n = 2 ^ 53")
      case False
      with n_hi have "?n < 2 ^ 53" by simp
      then have "of_int ?n < (2 ^ 53::real)" by (metis of_int_less_iff of_int_numeral of_int_power)
      then have "?y < 2 ^ 53 * ?q" using q by simp
      then have y_hi: "?y < 2 powi (?e + 1)" using powi_split(2)[of ?e] by (simp add: qe)
      have "quantum ?y = 2 powi (?e - 52)" using ypos True y_lo y_hi by (rule quantum_normal)
      then have "?y = of_int ?n * quantum ?y" by (simp add: qe)
      with ypos lim show ?thesis by (rule isDouble_multiple)
    next
      case n: True
      have "?y = 2 ^ 53 * ?q" by (simp add: n)
      then have yv: "?y = 2 powi (?e + 1)" using powi_split(2)[of ?e] by (simp only: qe)
      have "?y < 2 powi (?e + 1 + 1)" unfolding yv by (rule pow2_strict) simp
      moreover have "2 powi (?e + 1) \<le> ?y" by (simp add: yv)
      moreover have "emin \<le> ?e + 1" using True by simp
      ultimately have "quantum ?y = 2 powi (?e + 1 - 52)" using ypos
        by (intro quantum_normal) simp_all
      then have "quantum ?y = 2 * ?q" using powi_split(3)[of ?e] by (simp add: qe)
      then have "?y = of_int (2 ^ 52) * quantum ?y" by (simp add: n)
      with ypos lim show ?thesis by (rule isDouble_multiple)
    qed
  next
    case False
    then have qe: "?q = 2 powi (emin - 52)" using x by (simp add: quantum_def max_def)
    have edge: "(2::real) powi emin = 2 ^ 52 * 2 powi (emin - 52)"
      by (rule powi_split(1))
    have "?e + 1 \<le> emin" using False by simp
    then have "(2::real) powi (?e + 1) \<le> 2 powi emin" by (rule pow2_mono)
    with hi have "x < 2 ^ 52 * ?q" using edge by (simp add: qe)
    then have "x / ?q \<le> of_int (2 ^ 52)" using q by (simp add: pos_divide_le_eq)
    then have n_hi: "?n \<le> 2 ^ 52" by (rule roundEven_le)
    have "of_int 0 \<le> x / ?q" using x q by simp
    then have n_lo: "0 \<le> ?n" by (rule roundEven_ge)
    show ?thesis
    proof (cases "?n = 0")
      case True
      then show ?thesis by (simp add: isDouble_0)
    next
      case nz: False
      with n_lo have "0 < ?n" by simp
      then have ypos: "0 < ?y" using q by simp
      have "of_int ?n \<le> (2 ^ 52::real)" using n_hi by (metis of_int_le_iff of_int_numeral of_int_power)
      then have "?y \<le> 2 ^ 52 * ?q" using q by simp
      then have y_hi: "?y \<le> 2 powi emin" using edge by (simp add: qe)
      have "quantum ?y = 2 powi (emin - 52)"
      proof (cases "?y < 2 powi emin")
        case True
        with ypos show ?thesis by (rule quantum_subnormal)
      next
        case False
        with y_hi have yv: "?y = 2 powi emin" by simp
        have "?y < 2 powi (emin + 1)" unfolding yv by (rule pow2_strict) simp
        moreover have "2 powi emin \<le> ?y" by (simp only: yv)
        ultimately show ?thesis using ypos by (intro quantum_normal) simp_all
      qed
      then have "?y = of_int ?n * quantum ?y" by (simp add: qe)
      with ypos lim show ?thesis by (rule isDouble_multiple)
    qed
  qed
qed

lemma nearest_isDouble:
  assumes "\<bar>nearest x\<bar> < 2 ^ 1024"
  shows "isDouble (nearest x)"
proof -
  consider "x = 0" | "0 < x" | "x < 0" by linarith
  then show ?thesis
  proof cases
    case 1
    then show ?thesis by (simp add: nearest_def isDouble_0)
  next
    case 2
    then have n: "nearest x = of_int (roundEven (x / quantum x)) * quantum x"
      by (simp add: nearest_def)
    have "of_int 0 \<le> x / quantum x" using 2 quantum_pos[of x] by simp
    then have "0 \<le> roundEven (x / quantum x)" by (rule roundEven_ge)
    then have "0 \<le> of_int (roundEven (x / quantum x)) * quantum x"
      using quantum_pos[of x] by simp
    with assms n have "of_int (roundEven (x / quantum x)) * quantum x < 2 ^ 1024" by simp
    with 2 show ?thesis unfolding n by (rule round_pos_isDouble)
  next
    case 3
    then have pos: "0 < - x" by simp
    have n: "nearest x = - (of_int (roundEven (- x / quantum (- x))) * quantum (- x))"
      using 3 by (simp add: nearest_def quantum_minus)
    have "of_int 0 \<le> - x / quantum (- x)" using pos quantum_pos[of "- x"]
      by (simp add: divide_le_0_iff)
    then have "0 \<le> roundEven (- x / quantum (- x))" by (rule roundEven_ge)
    then have "0 \<le> of_int (roundEven (- x / quantum (- x))) * quantum (- x)"
      using quantum_pos[of "- x"] by simp
    with assms n have "of_int (roundEven (- x / quantum (- x))) * quantum (- x) < 2 ^ 1024" by simp
    with pos have "isDouble (of_int (roundEven (- x / quantum (- x))) * quantum (- x))"
      by (rule round_pos_isDouble)
    then show ?thesis unfolding n by (simp only: isDouble_minus)
  qed
qed

lemma nearest_exact:
  assumes "isDouble x"
  shows "nearest x = x"
proof -
  from assms have i: "of_int \<lfloor>x / quantum x\<rfloor> = x / quantum x" by (simp add: isDouble_def)
  have q: "0 < quantum x" by (rule quantum_pos)
  have "\<bar>x\<bar> / quantum x = \<bar>x / quantum x\<bar>" using q by simp
  also have "\<dots> = of_int \<bar>\<lfloor>x / quantum x\<rfloor>\<bar>" using i by (metis of_int_abs)
  finally have "roundEven (\<bar>x\<bar> / quantum x) = \<bar>\<lfloor>x / quantum x\<rfloor>\<bar>"
    by (simp only: roundEven_of_int)
  then have "of_int (roundEven (\<bar>x\<bar> / quantum x)) * quantum x = \<bar>x / quantum x\<bar> * quantum x"
    using i by (metis of_int_abs)
  also have "\<dots> = \<bar>x\<bar>" using q by simp
  finally show ?thesis by (simp add: nearest_def sgn_mult_abs flip: abs_sgn)
qed

lemma val_isDouble: "isDouble (val d)"
  using val[of d] by simp

lemma Abs_double_val [code abstype]: "Abs_double (val d) = d"
  by (rule val_inverse)

lemma val_dbl_rep [code abstract]:
  "val (dbl x) = (if \<bar>nearest x\<bar> < 2 ^ 1024 then nearest x else 0)"
  unfolding dbl_def by (rule Abs_double_inverse) (simp add: nearest_isDouble isDouble_0)

lemma val_dbl: "isDouble x \<Longrightarrow> val (dbl x) = x"
  by (simp add: val_dbl_rep nearest_exact isDouble_def)

lemma dbl_val: "dbl (val d) = d"
  by (simp add: val_inject[symmetric] val_dbl val_isDouble)

lemma fl_exact: "isDouble x \<Longrightarrow> fl x = Fin (dbl x)"
  by (simp add: fl_def nearest_exact isDouble_def)

lemma fl_val: "fl (val d) = Fin d"
  by (simp add: fl_exact val_isDouble dbl_val)

lemma val_zero: "val (dbl 0) = 0"
  by (simp add: val_dbl isDouble_0)

lemma val_eq_0_iff: "val d = 0 \<longleftrightarrow> d = dbl 0"
  by (metis val_zero dbl_val)

section \<open>Folding to the first extremum\<close>

text \<open>
  A left fold that replaces its accumulator only by a strictly better element ends on
  the accumulator it started from, or on the first element of the list that no other
  element beats.
\<close>

lemma foldl_pick_cases:
  fixes key :: "'a \<Rightarrow> real"
  assumes f: "\<And>m p. f m p = (if key m < key p then p else m)"
  shows "(foldl f a xs = a \<and> (\<forall>x\<in>set xs. key x \<le> key a)) \<or>
   (key a < key (foldl f a xs) \<and>
    (\<exists>ys zs. xs = ys @ foldl f a xs # zs \<and>
       (\<forall>y\<in>set ys. key y < key (foldl f a xs)) \<and>
       (\<forall>z\<in>set zs. key z \<le> key (foldl f a xs))))"
proof (induction xs arbitrary: a)
  case Nil
  then show ?case by simp
next
  case (Cons x xs)
  let ?b = "f a x"
  let ?r = "foldl f a (x # xs)"
  have r: "?r = foldl f ?b xs" by simp
  have b: "key a \<le> key ?b" "key x \<le> key ?b" by (simp_all add: f)
  from Cons.IH[of ?b] show ?case
  proof
    assume stay: "foldl f ?b xs = ?b \<and> (\<forall>y\<in>set xs. key y \<le> key ?b)"
    show ?thesis
    proof (cases "key a < key x")
      case True
      then have "?b = x" by (simp add: f)
      with stay r True have "x # xs = [] @ ?r # xs" "key a < key ?r"
        "\<forall>z\<in>set xs. key z \<le> key ?r" by simp_all
      then show ?thesis by (metis empty_iff list.set(1))
    next
      case False
      then have "?b = a" by (simp add: f)
      with stay r False show ?thesis by simp
    qed
  next
    assume "key ?b < key (foldl f ?b xs) \<and>
      (\<exists>ys zs. xs = ys @ foldl f ?b xs # zs \<and>
         (\<forall>y\<in>set ys. key y < key (foldl f ?b xs)) \<and>
         (\<forall>z\<in>set zs. key z \<le> key (foldl f ?b xs)))"
    then obtain ys zs where up: "key ?b < key ?r"
      and split: "xs = ys @ ?r # zs"
      and before: "\<forall>y\<in>set ys. key y < key ?r"
      and after: "\<forall>z\<in>set zs. key z \<le> key ?r"
      using r by auto
    have "x # xs = (x # ys) @ ?r # zs" using split by simp
    moreover have "\<forall>y\<in>set (x # ys). key y < key ?r" using before up b by simp
    moreover have "key a < key ?r" using up b by simp
    ultimately show ?thesis using after by blast
  qed
qed

lemma foldl_pick_first:
  fixes key :: "'a \<Rightarrow> real"
  assumes f: "\<And>m p. f m p = (if key m < key p then p else m)"
  shows "\<exists>ys zs. x # xs = ys @ foldl f x (x # xs) # zs \<and>
       (\<forall>y\<in>set ys. key y < key (foldl f x (x # xs))) \<and>
       (\<forall>z\<in>set zs. key z \<le> key (foldl f x (x # xs)))"
proof -
  let ?r = "foldl f x (x # xs)"
  have r: "?r = foldl f x xs" by (simp add: f)
  from foldl_pick_cases[of f key x xs, OF f] show ?thesis
  proof
    assume "foldl f x xs = x \<and> (\<forall>y\<in>set xs. key y \<le> key x)"
    with r have "x # xs = [] @ ?r # xs" "\<forall>z\<in>set xs. key z \<le> key ?r" by simp_all
    then show ?thesis by (metis empty_iff list.set(1))
  next
    assume "key x < key (foldl f x xs) \<and>
      (\<exists>ys zs. xs = ys @ foldl f x xs # zs \<and>
         (\<forall>y\<in>set ys. key y < key (foldl f x xs)) \<and>
         (\<forall>z\<in>set zs. key z \<le> key (foldl f x xs)))"
    then obtain ys zs where up: "key x < key ?r"
      and split: "xs = ys @ ?r # zs"
      and before: "\<forall>y\<in>set ys. key y < key ?r"
      and after: "\<forall>z\<in>set zs. key z \<le> key ?r"
      using r by auto
    have "x # xs = (x # ys) @ ?r # zs" using split by simp
    moreover have "\<forall>y\<in>set (x # ys). key y < key ?r" using before up by simp
    ultimately show ?thesis using after by blast
  qed
qed

lemma peak_split:
  assumes "postHalvingDataPoints data T \<noteq> []"
  shows "\<exists>ys zs. postHalvingDataPoints data T = ys @ peak data T # zs \<and>
       (\<forall>y\<in>set ys. val (price y) < val (price (peak data T))) \<and>
       (\<forall>z\<in>set zs. val (price z) \<le> val (price (peak data T)))"
proof -
  obtain x xs where post: "postHalvingDataPoints data T = x # xs"
    using assms by (cases "postHalvingDataPoints data T") auto
  have "peak data T = foldl higher x (x # xs)" by (simp add: peak_def post)
  with foldl_pick_first[of higher "\<lambda>p. val (price p)" x xs] post show ?thesis
    by (simp add: higher_def)
qed

lemma bottom_split:
  assumes "take 365 (afterPeak data T) \<noteq> []"
  shows "\<exists>ys zs. take 365 (afterPeak data T) = ys @ bottomAfterPeak data T # zs \<and>
       (\<forall>y\<in>set ys. val (price (bottomAfterPeak data T)) < val (price y)) \<and>
       (\<forall>z\<in>set zs. val (price (bottomAfterPeak data T)) \<le> val (price z))"
proof -
  obtain x xs where ap: "afterPeak data T = x # xs"
    using assms by (cases "afterPeak data T") auto
  then have win: "take 365 (afterPeak data T) = x # take 364 xs"
    by (simp add: take_Cons')
  have "bottomAfterPeak data T = foldl lower x (x # take 364 xs)"
    by (simp add: bottomAfterPeak_def ap take_Cons')
  with foldl_pick_first[of lower "\<lambda>p. - val (price p)" x "take 364 xs"] win show ?thesis
    by (simp add: lower_def)
qed

lemma peak_in_post:
  assumes "postHalvingDataPoints data T \<noteq> []"
  shows "peak data T \<in> set (postHalvingDataPoints data T)"
proof -
  from peak_split[OF assms] obtain ys zs
    where "postHalvingDataPoints data T = ys @ peak data T # zs" by blast
  then show ?thesis by simp
qed

lemma bottom_in_window:
  assumes "take 365 (afterPeak data T) \<noteq> []"
  shows "bottomAfterPeak data T \<in> set (take 365 (afterPeak data T))"
proof -
  from bottom_split[OF assms] obtain ys zs
    where "take 365 (afterPeak data T) = ys @ bottomAfterPeak data T # zs" by blast
  then show ?thesis by simp
qed

lemma peak_empty:
  "postHalvingDataPoints data T = [] \<Longrightarrow>
   peak data T = \<lparr>timestamp = 0, date = '''', price = dbl 0\<rparr>"
  by (simp add: peak_def)

lemma bottom_empty:
  "take 365 (afterPeak data T) = [] \<Longrightarrow>
   bottomAfterPeak data T = \<lparr>timestamp = 0, date = '''', price = peakPrice_of data T\<rparr>"
  by (simp add: bottomAfterPeak_def)

lemma peakPrice_of_eq: "peakPrice_of data T = price (peak data T)"
  by (simp add: peakPrice_of_def val_eq_0_iff)

lemma peak_earliest_when_sorted:
  assumes "sorted (map timestamp data)" and "p \<in> set (postHalvingDataPoints data T)"
    and "val (price p) = val (price (peak data T))"
  shows "timestamp (peak data T) \<le> timestamp p"
proof -
  have ne: "postHalvingDataPoints data T \<noteq> []" using assms(2) by auto
  from peak_split[OF ne] obtain ys zs
    where split: "postHalvingDataPoints data T = ys @ peak data T # zs"
      and before: "\<forall>y\<in>set ys. val (price y) < val (price (peak data T))" by blast
  have "sorted (map timestamp (postHalvingDataPoints data T))"
    unfolding postHalvingDataPoints_def using assms(1) by (rule sorted_filter)
  then have later: "\<forall>z\<in>set zs. timestamp (peak data T) \<le> timestamp z"
    by (simp add: split sorted_append)
  from assms(2) split have "p \<in> set ys \<or> p = peak data T \<or> p \<in> set zs" by auto
  with before later assms(3) show ?thesis by auto
qed

section \<open>The prices read from the pre-window\<close>

lemma priceAt_first: "priceAt xs 0 = (if xs = [] then None else Some (price (hd xs)))"
  by (cases xs) (simp_all add: priceAt_def)

lemma priceAt_last:
  "priceAt xs (int (length xs) - 1) = (if xs = [] then None else Some (price (last xs)))"
proof (cases "xs = []")
  case True
  then show ?thesis by (simp add: priceAt_def)
next
  case False
  then have "nat (int (length xs) - 1) = length xs - 1" "0 < length xs" by simp_all
  with False show ?thesis by (simp add: priceAt_def last_conv_nth)
qed

lemma startPrice_of_eq:
  "startPrice_of data T =
     (if preHalvingDataPoints data T = [] then dbl 0
      else price (hd (preHalvingDataPoints data T)))"
  by (simp add: startPrice_of_def priceAt_first val_eq_0_iff)

lemma halvingPrice_of_eq:
  "halvingPrice_of data halving T =
     (if preHalvingDataPoints data T = [] \<or> val (price (last (preHalvingDataPoints data T))) = 0
      then priceAtHalving halving
      else price (last (preHalvingDataPoints data T)))"
  by (simp add: halvingPrice_of_def priceAt_last)

lemma empty_startPrice: "startPrice_of [] T = dbl 0"
  by (simp add: startPrice_of_eq preHalvingDataPoints_def)

lemma empty_halvingPrice: "halvingPrice_of [] halving T = priceAtHalving halving"
  by (simp add: halvingPrice_of_eq preHalvingDataPoints_def)

section \<open>Exact cases of the percentage formula\<close>

lemma isDouble_1: "isDouble 1"
  by (simp add: isDouble_def quantum_def expo_def emin_def compute_bitlen)

lemma isDouble_100: "isDouble 100"
  by (simp add: isDouble_def quantum_def expo_def emin_def compute_bitlen)

lemma val_100: "val (dbl 100) = 100"
  by (simp add: val_dbl isDouble_100)

lemma js_sub_self: "js_sub a a = Fin (dbl 0)"
  by (simp add: js_sub_def fl_exact isDouble_0)

lemma js_sub_zero_right: "js_sub a (dbl 0) = Fin a"
  by (simp add: js_sub_def val_zero fl_val)

lemma js_sub_zero_left: "js_sub (dbl 0) a = Fin (dbl (- val a))"
  by (simp add: js_sub_def val_zero fl_exact isDouble_minus val_isDouble)

lemma percent_of_zero:
  "js_mul (js_div (Fin (dbl 0)) p) (dbl 100) = (if val p = 0 then NaN else Fin (dbl 0))"
  by (simp add: val_zero fl_exact isDouble_0)

lemma percent_zero_divisor:
  assumes "val b = 0"
  shows "js_mul (js_div (Fin a) b) (dbl 100) =
      (if 0 < val a then PInf else if val a < 0 then NInf else NaN)"
  using assms by (simp add: val_100)

lemma zero_divisor_not_finite:
  assumes "val b = 0"
  shows "\<not> isFinite (js_mul (js_div x b) (dbl 100))"
  using assms by (cases x) (simp_all add: val_100)

lemma percent_minus_hundred:
  assumes "val p \<noteq> 0"
  shows "js_mul (js_div (js_sub (dbl 0) p) p) (dbl 100) = Fin (dbl (- 100))"
proof -
  have m: "isDouble (- val p)" by (simp add: isDouble_minus val_isDouble)
  have "js_div (js_sub (dbl 0) p) p = fl (- val p / val p)"
    using assms by (simp add: js_sub_zero_left val_dbl m)
  also have "\<dots> = fl (- 1)" using assms by simp
  also have "\<dots> = Fin (dbl (- 1))" by (rule fl_exact) (simp add: isDouble_minus isDouble_1)
  finally have "js_mul (js_div (js_sub (dbl 0) p) p) (dbl 100) = fl (val (dbl (- 1)) * 100)"
    by (simp add: val_100)
  also have "\<dots> = fl (- 100)" by (simp add: val_dbl isDouble_minus isDouble_1)
  also have "\<dots> = Fin (dbl (- 100))" by (rule fl_exact) (simp add: isDouble_minus isDouble_100)
  finally show ?thesis .
qed

lemma percent_sentinel:
  "js_mul (js_div (js_sub (dbl 0) p) p) (dbl 100) =
     (if val p = 0 then NaN else Fin (dbl (- 100)))"
proof (cases "val p = 0")
  case True
  then have "p = dbl 0" by (simp add: val_eq_0_iff)
  then have "js_mul (js_div (js_sub (dbl 0) p) p) (dbl 100) =
      (if val (dbl 0) = 0 then NaN else Fin (dbl 0))"
    by (simp only: js_sub_self percent_of_zero)
  with True show ?thesis by (simp add: val_zero)
next
  case False
  then show ?thesis using percent_minus_hundred[of p] by simp
qed

lemma val_minus_100: "val (dbl (- 100)) = - 100"
  by (simp add: val_dbl isDouble_minus isDouble_100)

lemma crashPercentage_eq:
  "crashPercentage data T =
     js_mul (js_div (js_sub (price (bottomAfterPeak data T)) (price (peak data T)))
                    (price (peak data T))) (dbl 100)"
  by (simp add: crashPercentage_def peakPrice_of_eq)

section \<open>The sample inputs evaluated\<close>

lemma sample_doubles:
  "isDouble 3" "isDouble 4" "isDouble 5" "isDouble 7" "isDouble 9" "isDouble 10"
  "isDouble 50" "isDouble 125" "isDouble 150" "isDouble 200" "isDouble 25"
  "isDouble (5 / 4)" "isDouble (1 / 4)"
  by (simp_all add: isDouble_def quantum_def expo_def emin_def compute_bitlen)

lemma sample_vals:
  "val (dbl 3) = 3" "val (dbl 4) = 4" "val (dbl 5) = 5" "val (dbl 7) = 7" "val (dbl 9) = 9"
  "val (dbl 10) = 10" "val (dbl 150) = 150" "val (dbl 200) = 200"
  by (simp_all add: val_dbl sample_doubles)

lemma table_prices_nonzero:
  "val (dbl 12.35) \<noteq> 0" "val (dbl 650.63) \<noteq> 0" "val (dbl 8821.42) \<noteq> 0"
  "val (dbl 63812.00) \<noteq> 0"
  by (simp_all add: val_dbl_rep nearest_def roundEven_def quantum_def expo_def emin_def
      compute_bitlen)

lemma table_halvingPrice_nonzero:
  assumes "halving \<in> set halvingEvents"
  shows "val (halvingPrice_of data halving T) \<noteq> 0"
proof -
  from assms have "val (priceAtHalving halving) \<noteq> 0"
    using table_prices_nonzero by (auto simp add: halvingEvents_def)
  then show ?thesis by (simp add: halvingPrice_of_eq)
qed

lemma getTime_first: "getTime ''2012-11-28'' = 1354060800000"
  by (simp add: getTime_def daysFromCivil_def digit_def)

lemma analyses_table:
  "analyses data =
     [analysis data (halvingEvents ! 0) 1354060800000,
      analysis data (halvingEvents ! 1) 1468022400000,
      analysis data (halvingEvents ! 2) 1589155200000,
      analysis data (halvingEvents ! 3) 1713484800000]"
  by (simp add: analyses_def analysesOver_def halvingEvents_def getTime_def daysFromCivil_def
      digit_def)

lemma hd_analyses: "hd (analyses data) = analysis data (hd halvingEvents) 1354060800000"
  by (simp add: analyses_table) (simp add: halvingEvents_def)

lemma first_price: "priceAtHalving (hd halvingEvents) = dbl 12.35"
  by (simp add: halvingEvents_def)

lemma first_price_nonzero: "val (priceAtHalving (hd halvingEvents)) \<noteq> 0"
  using table_prices_nonzero(1) by (simp add: halvingEvents_def)

lemma sample_pre:
  "preHalvingDataPoints sampleSeries 1000 = [\<lparr>timestamp = 1000, date = ''a'', price = dbl 4\<rparr>]"
  by (simp add: sampleSeries_def preHalvingDataPoints_def preHalvingStart_def)

lemma sample_post:
  "postHalvingDataPoints sampleSeries 1000 =
     [\<lparr>timestamp = 1001, date = ''b'', price = dbl 5\<rparr>,
      \<lparr>timestamp = 1002, date = ''c'', price = dbl 9\<rparr>,
      \<lparr>timestamp = 1003, date = ''d'', price = dbl 9\<rparr>,
      \<lparr>timestamp = 1004, date = ''e'', price = dbl 3\<rparr>]"
  by (simp add: sampleSeries_def postHalvingDataPoints_def postHalvingEnd_def)

lemma sample_peak:
  "peak sampleSeries 1000 = \<lparr>timestamp = 1002, date = ''c'', price = dbl 9\<rparr>"
  by (simp add: peak_def sample_post higher_def sample_vals)

lemma sample_startPrice: "startPrice_of sampleSeries 1000 = dbl 4"
  by (simp add: startPrice_of_eq sample_pre)

lemma sample_halvingPrice: "halvingPrice_of sampleSeries sampleEvent 1000 = dbl 4"
  by (simp add: halvingPrice_of_eq sample_pre sample_vals)

lemma sample_afterPeak:
  "afterPeak sampleSeries 1000 =
     [\<lparr>timestamp = 1003, date = ''d'', price = dbl 9\<rparr>,
      \<lparr>timestamp = 1004, date = ''e'', price = dbl 3\<rparr>]"
  by (simp add: afterPeak_def sample_peak) (simp add: sampleSeries_def)

lemma sample_bottom:
  "bottomAfterPeak sampleSeries 1000 = \<lparr>timestamp = 1004, date = ''e'', price = dbl 3\<rparr>"
  by (simp add: bottomAfterPeak_def sample_afterPeak lower_def sample_vals)

lemma short_post:
  "postHalvingDataPoints shortSeries 1000 = [\<lparr>timestamp = 1001, date = ''b'', price = dbl 5\<rparr>]"
  by (simp add: shortSeries_def postHalvingDataPoints_def postHalvingEnd_def)

lemma short_peak: "peak shortSeries 1000 = \<lparr>timestamp = 1001, date = ''b'', price = dbl 5\<rparr>"
  by (simp add: peak_def short_post higher_def)

lemma short_afterPeak: "afterPeak shortSeries 1000 = []"
  by (simp add: afterPeak_def short_peak) (simp add: shortSeries_def)

lemma late_pre: "preHalvingDataPoints sampleSeries 5000 = sampleSeries"
  by (simp add: sampleSeries_def preHalvingDataPoints_def preHalvingStart_def)

lemma late_post: "postHalvingDataPoints sampleSeries 5000 = []"
  by (simp add: sampleSeries_def postHalvingDataPoints_def)

lemma late_peak: "peak sampleSeries 5000 = \<lparr>timestamp = 0, date = '''', price = dbl 0\<rparr>"
  by (simp add: peak_def late_post)

lemma late_afterPeak: "afterPeak sampleSeries 5000 = sampleSeries"
  by (simp add: afterPeak_def late_peak) (simp add: sampleSeries_def)

lemma late_bottom:
  "bottomAfterPeak sampleSeries 5000 = \<lparr>timestamp = 1004, date = ''e'', price = dbl 3\<rparr>"
  by (simp add: bottomAfterPeak_def late_afterPeak) (simp add: sampleSeries_def lower_def sample_vals)

lemma late_halvingPrice: "halvingPrice_of sampleSeries sampleEvent 5000 = dbl 3"
  by (simp add: halvingPrice_of_eq late_pre) (simp add: sampleSeries_def sample_vals)

lemma zeroPrice_pre:
  "preHalvingDataPoints zeroPriceSeries 1354060800000 =
     [\<lparr>timestamp = 1354060800000, date = ''2012-11-28'', price = dbl 0\<rparr>]"
  by (simp add: zeroPriceSeries_def preHalvingDataPoints_def preHalvingStart_def)

lemma zeroPrice_post: "postHalvingDataPoints zeroPriceSeries 1354060800000 = []"
  by (simp add: zeroPriceSeries_def postHalvingDataPoints_def)

lemma zeroPrice_halvingPrice:
  "halvingPrice_of zeroPriceSeries halving 1354060800000 = priceAtHalving halving"
  by (simp add: halvingPrice_of_eq zeroPrice_pre val_zero)

lemma epoch_post: "postHalvingDataPoints epochSeries 1354060800000 = []"
  by (simp add: epochSeries_def postHalvingDataPoints_def)

lemma epoch_peak:
  "peak epochSeries 1354060800000 = \<lparr>timestamp = 0, date = '''', price = dbl 0\<rparr>"
  by (simp add: peak_def epoch_post)

lemma epoch_afterPeak: "afterPeak epochSeries 1354060800000 = []"
  by (simp add: afterPeak_def epoch_peak) (simp add: epochSeries_def)

lemma dayBefore_pre: "preHalvingDataPoints dayBeforeSeries 1354060800000 = dayBeforeSeries"
  by (simp add: dayBeforeSeries_def preHalvingDataPoints_def preHalvingStart_def)

lemma dayBefore_post: "postHalvingDataPoints dayBeforeSeries 1354060800000 = []"
  by (simp add: dayBeforeSeries_def postHalvingDataPoints_def)

lemma dayBefore_peak:
  "peak dayBeforeSeries 1354060800000 = \<lparr>timestamp = 0, date = '''', price = dbl 0\<rparr>"
  by (simp add: peak_def dayBefore_post)

lemma dayBefore_afterPeak: "afterPeak dayBeforeSeries 1354060800000 = dayBeforeSeries"
  by (simp add: afterPeak_def dayBefore_peak) (simp add: dayBeforeSeries_def)

lemma dayBefore_bottom:
  "bottomAfterPeak dayBeforeSeries 1354060800000 =
     \<lparr>timestamp = 1353974400000, date = ''2012-11-27'', price = dbl 10\<rparr>"
  by (simp add: bottomAfterPeak_def dayBefore_afterPeak) (simp add: dayBeforeSeries_def lower_def)

lemma dayBefore_halvingPrice:
  "halvingPrice_of dayBeforeSeries halving 1354060800000 = dbl 10"
  by (simp add: halvingPrice_of_eq dayBefore_pre) (simp add: dayBeforeSeries_def sample_vals)

section \<open>Claims\<close>

text \<open>
  C2. The post-window is the points with timestamp in \<open>(T, T + 730 days]\<close>, in series
  order. When it is empty the peak is the sentinel of price \<open>0\<close>; otherwise the peak
  splits the window into points strictly below it, the peak itself, and points not
  above it, so it is the first occurrence of the maximum price, and on an ascending
  series no point of the window attaining that price is stamped earlier. The reported
  days to the peak are \<open>floor((peak.timestamp - T) / 1 day)\<close> and the reported gain is
  \<open>(peak.price - halvingPrice) / halvingPrice * 100\<close>, each operation in binary64
  arithmetic.
\<close>

theorem peak_earliest_maximum:
  "postHalvingDataPoints data T =
     filter (\<lambda>d. T < timestamp d \<and> timestamp d \<le> T + 730 * 86400000) data
   \<and> (postHalvingDataPoints data T = [] \<longrightarrow>
        peak data T = \<lparr>timestamp = 0, date = '''', price = dbl 0\<rparr>)
   \<and> (postHalvingDataPoints data T \<noteq> [] \<longrightarrow>
        (\<exists>ys zs. postHalvingDataPoints data T = ys @ peak data T # zs
           \<and> (\<forall>y\<in>set ys. val (price y) < val (price (peak data T)))
           \<and> (\<forall>z\<in>set zs. val (price z) \<le> val (price (peak data T)))))
   \<and> (sorted (map timestamp data) \<longrightarrow>
        (\<forall>p\<in>set (postHalvingDataPoints data T).
           val (price p) = val (price (peak data T)) \<longrightarrow>
           timestamp (peak data T) \<le> timestamp p))
   \<and> peakPrice (postHalvingData (analysis data halving T)) = price (peak data T)
   \<and> peakDate (postHalvingData (analysis data halving T)) = PricePoint.date (peak data T)
   \<and> daysToTop (postHalvingData (analysis data halving T)) =
        \<lfloor>real_of_int (timestamp (peak data T) - T) / 86400000\<rfloor>
   \<and> PostHalvingData.percentageGain (postHalvingData (analysis data halving T)) =
        js_mul (js_div (js_sub (price (peak data T)) (halvingPrice_of data halving T))
                       (halvingPrice_of data halving T)) (dbl 100)"
proof -
  have window: "postHalvingDataPoints data T =
      filter (\<lambda>d. T < timestamp d \<and> timestamp d \<le> T + 730 * 86400000) data"
    by (simp add: postHalvingDataPoints_def postHalvingEnd_def)
  have days: "daysToTop (postHalvingData (analysis data halving T)) =
      \<lfloor>real_of_int (timestamp (peak data T) - T) / 86400000\<rfloor>"
  proof -
    have "\<lfloor>real_of_int (timestamp (peak data T) - T) / real_of_int 86400000\<rfloor> =
        (timestamp (peak data T) - T) div 86400000"
      by (rule floor_divide_of_int_eq)
    then show ?thesis by (simp add: analysis_def daysToTop_of_def)
  qed
  have gain: "PostHalvingData.percentageGain (postHalvingData (analysis data halving T)) =
        js_mul (js_div (js_sub (price (peak data T)) (halvingPrice_of data halving T))
                       (halvingPrice_of data halving T)) (dbl 100)"
    by (simp add: analysis_def postHalvingGain_def peakPrice_of_eq)
  have fields: "peakPrice (postHalvingData (analysis data halving T)) = price (peak data T)"
    "peakDate (postHalvingData (analysis data halving T)) = PricePoint.date (peak data T)"
    by (simp_all add: analysis_def peakPrice_of_eq peakDate_of_def)
  have chrono: "sorted (map timestamp data) \<longrightarrow>
        (\<forall>p\<in>set (postHalvingDataPoints data T).
           val (price p) = val (price (peak data T)) \<longrightarrow>
           timestamp (peak data T) \<le> timestamp p)"
    using peak_earliest_when_sorted[of data _ T] by blast
  show ?thesis
    using window days gain fields chrono peak_empty[of data T] peak_split[of data T]
    by blast
qed

theorem peak_earliest_maximum_witness:
  "postHalvingDataPoints sampleSeries 1000 \<noteq> []
   \<and> (\<exists>ys zs. postHalvingDataPoints sampleSeries 1000 =
          ys @ \<lparr>timestamp = 1002, date = ''c'', price = dbl 9\<rparr> # zs
        \<and> (\<forall>y\<in>set ys. val (price y) < 9) \<and> (\<forall>z\<in>set zs. val (price z) \<le> 9))
   \<and> sorted (map timestamp sampleSeries)
   \<and> daysToTop (postHalvingData (analysis sampleSeries sampleEvent 1000)) = 0
   \<and> PostHalvingData.percentageGain (postHalvingData (analysis sampleSeries sampleEvent 1000))
       = Fin (dbl 125)"
proof -
  have s: "sorted (map timestamp sampleSeries)" by (simp add: sampleSeries_def)
  have "js_mul (js_div (js_sub (dbl 9) (dbl 4)) (dbl 4)) (dbl 100) = Fin (dbl 125)"
    by (simp add: js_sub_def sample_vals val_100 val_dbl fl_exact sample_doubles)
  with s peak_earliest_maximum[of sampleSeries 1000 sampleEvent, THEN conjunct2]
  show ?thesis by (simp add: sample_post sample_peak sample_halvingPrice sample_vals)
qed

text \<open>
  C3, amended. The pre-window is the points with timestamp in \<open>[T - 365 days, T]\<close>, in
  series order. \<open>startPrice\<close> is the price of its first point, \<open>0\<close> when it is
  empty. \<open>halvingPrice\<close> is the price of its last point when that price is not zero;
  when the window is empty or that price is zero it is the event's
  \<open>priceAtHalving\<close>. The reported gain is
  \<open>(halvingPrice - startPrice) / startPrice * 100\<close>, each operation in binary64
  arithmetic.
\<close>

theorem pre_window_prices:
  "preHalvingDataPoints data T =
     filter (\<lambda>d. T - 365 * 86400000 \<le> timestamp d \<and> timestamp d \<le> T) data
   \<and> startPrice (preHalvingData (analysis data halving T)) =
       (if preHalvingDataPoints data T = [] then dbl 0
        else price (hd (preHalvingDataPoints data T)))
   \<and> PreHalvingData.halvingPrice (preHalvingData (analysis data halving T)) =
       (if preHalvingDataPoints data T = []
           \<or> val (price (last (preHalvingDataPoints data T))) = 0
        then priceAtHalving halving
        else price (last (preHalvingDataPoints data T)))
   \<and> PostHalvingData.halvingPrice (postHalvingData (analysis data halving T)) =
       PreHalvingData.halvingPrice (preHalvingData (analysis data halving T))
   \<and> PreHalvingData.percentageGain (preHalvingData (analysis data halving T)) =
       js_mul (js_div (js_sub (PreHalvingData.halvingPrice (preHalvingData (analysis data halving T)))
                              (startPrice (preHalvingData (analysis data halving T))))
                      (startPrice (preHalvingData (analysis data halving T)))) (dbl 100)"
proof -
  have window: "preHalvingDataPoints data T =
      filter (\<lambda>d. T - 365 * 86400000 \<le> timestamp d \<and> timestamp d \<le> T) data"
    by (simp add: preHalvingDataPoints_def preHalvingStart_def)
  have sp: "startPrice (preHalvingData (analysis data halving T)) = startPrice_of data T"
    and hp: "PreHalvingData.halvingPrice (preHalvingData (analysis data halving T)) =
        halvingPrice_of data halving T"
    and hp': "PostHalvingData.halvingPrice (postHalvingData (analysis data halving T)) =
        halvingPrice_of data halving T"
    and pg: "PreHalvingData.percentageGain (preHalvingData (analysis data halving T)) =
        preHalvingGain data halving T"
    by (simp_all add: analysis_def)
  show ?thesis
    unfolding sp hp hp' pg
    using window startPrice_of_eq[of data T] halvingPrice_of_eq[of data halving T]
    by (simp add: preHalvingGain_def)
qed

theorem pre_window_prices_witness:
  "preHalvingDataPoints sampleSeries 1000 \<noteq> []
   \<and> startPrice (preHalvingData (analysis sampleSeries sampleEvent 1000)) = dbl 4
   \<and> PreHalvingData.halvingPrice (preHalvingData (analysis sampleSeries sampleEvent 1000)) = dbl 4
   \<and> PreHalvingData.percentageGain (preHalvingData (analysis sampleSeries sampleEvent 1000))
       = Fin (dbl 0)"
proof -
  have "js_mul (js_div (js_sub (dbl 4) (dbl 4)) (dbl 4)) (dbl 100) = Fin (dbl 0)"
    by (simp only: js_sub_self percent_of_zero sample_vals) simp
  with pre_window_prices[of sampleSeries 1000 sampleEvent, THEN conjunct2]
  show ?thesis by (simp add: sample_pre sample_vals)
qed

text \<open>
  C3 as stated fails on a series whose last pre-window point is priced \<open>0\<close>: for the
  first event of the table the reported \<open>halvingPrice\<close> is then the table's
  \<open>12.35\<close>, not the price \<open>0\<close> of that point.
\<close>

theorem halvingPrice_zero_last_counterexample:
  "preHalvingDataPoints zeroPriceSeries (getTime ''2012-11-28'') \<noteq> []
   \<and> val (price (last (preHalvingDataPoints zeroPriceSeries (getTime ''2012-11-28'')))) = 0
   \<and> PreHalvingData.halvingPrice (preHalvingData (hd (analyses zeroPriceSeries))) = dbl 12.35
   \<and> PreHalvingData.halvingPrice (preHalvingData (hd (analyses zeroPriceSeries))) \<noteq>
       price (last (preHalvingDataPoints zeroPriceSeries (getTime ''2012-11-28'')))"
proof -
  have "PreHalvingData.halvingPrice (preHalvingData (hd (analyses zeroPriceSeries))) =
      priceAtHalving (hd halvingEvents)"
    by (simp add: hd_analyses analysis_def zeroPrice_halvingPrice)
  also have "\<dots> = dbl 12.35" by (rule first_price)
  finally have hp:
    "PreHalvingData.halvingPrice (preHalvingData (hd (analyses zeroPriceSeries))) = dbl 12.35" .
  have nz: "val (dbl 12.35) \<noteq> 0" by (rule table_prices_nonzero(1))
  have pre: "preHalvingDataPoints zeroPriceSeries (getTime ''2012-11-28'') \<noteq> []"
    "val (price (last (preHalvingDataPoints zeroPriceSeries (getTime ''2012-11-28'')))) = 0"
    by (simp_all add: getTime_first zeroPrice_pre val_zero)
  from nz pre(2) have "dbl 12.35 \<noteq>
      price (last (preHalvingDataPoints zeroPriceSeries (getTime ''2012-11-28'')))"
    by metis
  then have "PreHalvingData.halvingPrice (preHalvingData (hd (analyses zeroPriceSeries))) \<noteq>
      price (last (preHalvingDataPoints zeroPriceSeries (getTime ''2012-11-28'')))"
    unfolding hp .
  with hp pre show ?thesis by blast
qed

text \<open>
  C1, amended. The crash window is the first 365 points, in series order, of the points
  with timestamp strictly after the peak's; on an ascending series that order is
  chronological. When the window is not empty the trough splits it into points priced
  strictly above it, the trough itself, and points priced not below it, so it is the
  first-occurring minimum. When the window is empty the trough is
  \<open>{price: peak.price, date: '', timestamp: 0}\<close> and the reported drawdown is \<open>0\<close>
  when the peak's price is not zero, and NaN when it is zero.
\<close>

theorem trough_in_crash_window:
  "afterPeak data T = filter (\<lambda>d. timestamp (peak data T) < timestamp d) data
   \<and> (sorted (map timestamp data) \<longrightarrow> sorted (map timestamp (take 365 (afterPeak data T))))
   \<and> (take 365 (afterPeak data T) \<noteq> [] \<longrightarrow>
        (\<exists>ys zs. take 365 (afterPeak data T) = ys @ bottomAfterPeak data T # zs
           \<and> (\<forall>y\<in>set ys. val (price (bottomAfterPeak data T)) < val (price y))
           \<and> (\<forall>z\<in>set zs. val (price (bottomAfterPeak data T)) \<le> val (price z))))
   \<and> (take 365 (afterPeak data T) = [] \<longrightarrow>
        bottomAfterPeak data T = \<lparr>timestamp = 0, date = '''', price = price (peak data T)\<rparr>
        \<and> percentageFromPeak (crashData (analysis data halving T)) =
            (if val (price (peak data T)) = 0 then NaN else Fin (dbl 0)))
   \<and> crashDate (crashData (analysis data halving T)) = PricePoint.date (bottomAfterPeak data T)
   \<and> bottomPrice (crashData (analysis data halving T)) = price (bottomAfterPeak data T)
   \<and> percentageFromPeak (crashData (analysis data halving T)) =
        js_mul (js_div (js_sub (price (bottomAfterPeak data T)) (price (peak data T)))
                       (price (peak data T))) (dbl 100)"
proof -
  have window: "afterPeak data T = filter (\<lambda>d. timestamp (peak data T) < timestamp d) data"
    by (simp add: afterPeak_def)
  have chrono: "sorted (map timestamp data) \<longrightarrow>
      sorted (map timestamp (take 365 (afterPeak data T)))"
  proof
    assume "sorted (map timestamp data)"
    then have "sorted (map timestamp (afterPeak data T))"
      unfolding afterPeak_def by (rule sorted_filter)
    then have "sorted (take 365 (map timestamp (afterPeak data T)))"
      by (rule sorted_wrt_take)
    then show "sorted (map timestamp (take 365 (afterPeak data T)))"
      by (simp add: take_map)
  qed
  have fields: "crashDate (crashData (analysis data halving T)) =
      PricePoint.date (bottomAfterPeak data T)"
    "bottomPrice (crashData (analysis data halving T)) = price (bottomAfterPeak data T)"
    and pct: "percentageFromPeak (crashData (analysis data halving T)) =
      js_mul (js_div (js_sub (price (bottomAfterPeak data T)) (price (peak data T)))
                     (price (peak data T))) (dbl 100)"
    by (simp_all add: analysis_def crashPercentage_eq)
  have empty: "take 365 (afterPeak data T) = [] \<longrightarrow>
        bottomAfterPeak data T = \<lparr>timestamp = 0, date = '''', price = price (peak data T)\<rparr>
        \<and> percentageFromPeak (crashData (analysis data halving T)) =
            (if val (price (peak data T)) = 0 then NaN else Fin (dbl 0))"
  proof
    assume e: "take 365 (afterPeak data T) = []"
    then have b: "bottomAfterPeak data T =
        \<lparr>timestamp = 0, date = '''', price = price (peak data T)\<rparr>"
      using bottom_empty[of data T] by (simp add: peakPrice_of_eq)
    have "percentageFromPeak (crashData (analysis data halving T)) =
        js_mul (js_div (js_sub (price (peak data T)) (price (peak data T)))
                       (price (peak data T))) (dbl 100)"
      by (simp add: pct b)
    also have "\<dots> = (if val (price (peak data T)) = 0 then NaN else Fin (dbl 0))"
      by (simp only: js_sub_self percent_of_zero)
    finally show "bottomAfterPeak data T =
          \<lparr>timestamp = 0, date = '''', price = price (peak data T)\<rparr>
        \<and> percentageFromPeak (crashData (analysis data halving T)) =
            (if val (price (peak data T)) = 0 then NaN else Fin (dbl 0))"
      using b by simp
  qed
  show ?thesis
    using window chrono fields pct empty bottom_split[of data T] by blast
qed

theorem trough_in_crash_window_witness:
  "sorted (map timestamp sampleSeries)
   \<and> sorted (map timestamp (take 365 (afterPeak sampleSeries 1000)))
   \<and> take 365 (afterPeak sampleSeries 1000) \<noteq> []
   \<and> (\<exists>ys zs. take 365 (afterPeak sampleSeries 1000) =
          ys @ \<lparr>timestamp = 1004, date = ''e'', price = dbl 3\<rparr> # zs
        \<and> (\<forall>y\<in>set ys. 3 < val (price y)) \<and> (\<forall>z\<in>set zs. 3 \<le> val (price z)))
   \<and> take 365 (afterPeak shortSeries 1000) = []
   \<and> bottomAfterPeak shortSeries 1000 = \<lparr>timestamp = 0, date = '''', price = dbl 5\<rparr>
   \<and> percentageFromPeak (crashData (analysis shortSeries sampleEvent 1000)) = Fin (dbl 0)"
proof -
  have s: "sorted (map timestamp sampleSeries)" by (simp add: sampleSeries_def)
  have ne: "take 365 (afterPeak sampleSeries 1000) \<noteq> []" by (simp add: sample_afterPeak)
  have e: "take 365 (afterPeak shortSeries 1000) = []" by (simp add: short_afterPeak)
  note full = trough_in_crash_window[of sampleSeries 1000 sampleEvent]
  note short = trough_in_crash_window[of shortSeries 1000 sampleEvent]
  from full s have a: "sorted (map timestamp (take 365 (afterPeak sampleSeries 1000)))" by blast
  from full ne have b: "\<exists>ys zs. take 365 (afterPeak sampleSeries 1000) =
          ys @ bottomAfterPeak sampleSeries 1000 # zs
        \<and> (\<forall>y\<in>set ys. val (price (bottomAfterPeak sampleSeries 1000)) < val (price y))
        \<and> (\<forall>z\<in>set zs. val (price (bottomAfterPeak sampleSeries 1000)) \<le> val (price z))"
    by blast
  from short e have c: "bottomAfterPeak shortSeries 1000 =
       \<lparr>timestamp = 0, date = '''', price = price (peak shortSeries 1000)\<rparr>
     \<and> percentageFromPeak (crashData (analysis shortSeries sampleEvent 1000)) =
         (if val (price (peak shortSeries 1000)) = 0 then NaN else Fin (dbl 0))" by blast
  from s a ne b c e show ?thesis by (simp add: sample_bottom short_peak sample_vals)
qed

text \<open>
  C1 as stated fails on the series whose only point is stamped \<open>0\<close>: for the first
  event of the table the post-window is empty, the sentinel peak has price \<open>0\<close>, no
  point is stamped after \<open>0\<close>, and the reported drawdown is \<open>0 / 0 * 100\<close>, NaN.
\<close>

theorem drawdown_nan_counterexample:
  "take 365 (afterPeak epochSeries (getTime ''2012-11-28'')) = []
   \<and> percentageFromPeak (crashData (hd (analyses epochSeries))) = NaN
   \<and> percentageFromPeak (crashData (hd (analyses epochSeries))) \<noteq> Fin (dbl 0)"
proof -
  have e: "take 365 (afterPeak epochSeries 1354060800000) = []"
    by (simp add: epoch_afterPeak)
  have b: "bottomAfterPeak epochSeries 1354060800000 =
      \<lparr>timestamp = 0, date = '''', price = dbl 0\<rparr>"
    using bottom_empty[OF e] by (simp add: peakPrice_of_eq epoch_peak)
  have "percentageFromPeak (crashData (hd (analyses epochSeries))) =
      js_mul (js_div (js_sub (dbl 0) (dbl 0)) (dbl 0)) (dbl 100)"
    by (simp add: hd_analyses analysis_def crashPercentage_eq b epoch_peak)
  also have "\<dots> = NaN" by (simp only: js_sub_self percent_of_zero val_zero) simp
  finally show ?thesis using e by (simp add: getTime_first)
qed

text \<open>
  C4, amended. For every series and every event timestamp \<open>T\<close>, hence for each record of
  the backtest: when the post-window holds a point, the peak is a point of the series
  with timestamp in \<open>(T, T + 730 days]\<close>; when the crash window holds a point, the
  trough is a point of that window and is stamped strictly after the peak. When the
  post-window is empty the peak is the sentinel of price \<open>0\<close> stamped \<open>0\<close>, which
  is outside the window of any event not before the epoch, and the record is not
  zero-change: its gain after the halving is \<open>-100\<close>, or NaN when \<open>halvingPrice\<close>
  is zero. When the crash window is empty the trough is the degenerate record
  that repeats the peak's price, so that the reported bottom price and peak price
  differ by zero. The dates and prices the record reports are those of this peak and
  this trough.
\<close>

theorem peak_and_trough_in_their_windows:
  "(postHalvingDataPoints data T \<noteq> [] \<longrightarrow>
      peak data T \<in> set data
      \<and> T < timestamp (peak data T) \<and> timestamp (peak data T) \<le> T + 730 * 86400000)
   \<and> (postHalvingDataPoints data T = [] \<longrightarrow>
        peak data T = \<lparr>timestamp = 0, date = '''', price = dbl 0\<rparr>
        \<and> (0 \<le> T \<longrightarrow> \<not> T < timestamp (peak data T))
        \<and> PostHalvingData.percentageGain (postHalvingData (analysis data halving T)) =
            (if val (PostHalvingData.halvingPrice (postHalvingData (analysis data halving T))) = 0
             then NaN else Fin (dbl (- 100))))
   \<and> (take 365 (afterPeak data T) \<noteq> [] \<longrightarrow>
        bottomAfterPeak data T \<in> set data
        \<and> bottomAfterPeak data T \<in> set (take 365 (afterPeak data T))
        \<and> timestamp (peak data T) < timestamp (bottomAfterPeak data T))
   \<and> (take 365 (afterPeak data T) = [] \<longrightarrow>
        bottomAfterPeak data T = \<lparr>timestamp = 0, date = '''', price = price (peak data T)\<rparr>
        \<and> val (bottomPrice (crashData (analysis data halving T)))
            - val (peakPrice (postHalvingData (analysis data halving T))) = 0)
   \<and> peakPrice (postHalvingData (analysis data halving T)) = price (peak data T)
   \<and> peakDate (postHalvingData (analysis data halving T)) = PricePoint.date (peak data T)
   \<and> bottomPrice (crashData (analysis data halving T)) = price (bottomAfterPeak data T)
   \<and> crashDate (crashData (analysis data halving T)) = PricePoint.date (bottomAfterPeak data T)"
proof -
  have pk: "postHalvingDataPoints data T \<noteq> [] \<longrightarrow>
      peak data T \<in> set data
      \<and> T < timestamp (peak data T) \<and> timestamp (peak data T) \<le> T + 730 * 86400000"
  proof
    assume "postHalvingDataPoints data T \<noteq> []"
    then have "peak data T \<in> set (postHalvingDataPoints data T)" by (rule peak_in_post)
    then show "peak data T \<in> set data
      \<and> T < timestamp (peak data T) \<and> timestamp (peak data T) \<le> T + 730 * 86400000"
      by (simp add: postHalvingDataPoints_def postHalvingEnd_def)
  qed
  have sentinel: "postHalvingDataPoints data T = [] \<longrightarrow>
        peak data T = \<lparr>timestamp = 0, date = '''', price = dbl 0\<rparr>
        \<and> (0 \<le> T \<longrightarrow> \<not> T < timestamp (peak data T))
        \<and> PostHalvingData.percentageGain (postHalvingData (analysis data halving T)) =
            (if val (PostHalvingData.halvingPrice (postHalvingData (analysis data halving T))) = 0
             then NaN else Fin (dbl (- 100)))"
  proof
    assume "postHalvingDataPoints data T = []"
    then have pk: "peak data T = \<lparr>timestamp = 0, date = '''', price = dbl 0\<rparr>"
      by (rule peak_empty)
    have "PostHalvingData.percentageGain (postHalvingData (analysis data halving T)) =
        js_mul (js_div (js_sub (dbl 0) (halvingPrice_of data halving T))
                       (halvingPrice_of data halving T)) (dbl 100)"
      by (simp add: analysis_def postHalvingGain_def peakPrice_of_eq pk)
    also have "\<dots> = (if val (halvingPrice_of data halving T) = 0 then NaN
        else Fin (dbl (- 100)))"
      by (rule percent_sentinel)
    also have "halvingPrice_of data halving T =
        PostHalvingData.halvingPrice (postHalvingData (analysis data halving T))"
      by (simp add: analysis_def)
    finally show "peak data T = \<lparr>timestamp = 0, date = '''', price = dbl 0\<rparr>
        \<and> (0 \<le> T \<longrightarrow> \<not> T < timestamp (peak data T))
        \<and> PostHalvingData.percentageGain (postHalvingData (analysis data halving T)) =
            (if val (PostHalvingData.halvingPrice (postHalvingData (analysis data halving T))) = 0
             then NaN else Fin (dbl (- 100)))"
      using pk by simp
  qed
  have tr: "take 365 (afterPeak data T) \<noteq> [] \<longrightarrow>
        bottomAfterPeak data T \<in> set data
        \<and> bottomAfterPeak data T \<in> set (take 365 (afterPeak data T))
        \<and> timestamp (peak data T) < timestamp (bottomAfterPeak data T)"
  proof
    assume "take 365 (afterPeak data T) \<noteq> []"
    then have w: "bottomAfterPeak data T \<in> set (take 365 (afterPeak data T))"
      by (rule bottom_in_window)
    then have "bottomAfterPeak data T \<in> set (afterPeak data T)"
      by (rule in_set_takeD)
    then have "bottomAfterPeak data T \<in> set data
        \<and> timestamp (peak data T) < timestamp (bottomAfterPeak data T)"
      by (simp add: afterPeak_def)
    with w show "bottomAfterPeak data T \<in> set data
        \<and> bottomAfterPeak data T \<in> set (take 365 (afterPeak data T))
        \<and> timestamp (peak data T) < timestamp (bottomAfterPeak data T)" by simp
  qed
  have fields: "peakPrice (postHalvingData (analysis data halving T)) = price (peak data T)"
    "peakDate (postHalvingData (analysis data halving T)) = PricePoint.date (peak data T)"
    "bottomPrice (crashData (analysis data halving T)) = price (bottomAfterPeak data T)"
    "crashDate (crashData (analysis data halving T)) = PricePoint.date (bottomAfterPeak data T)"
    by (simp_all add: analysis_def peakPrice_of_eq peakDate_of_def)
  have dflt: "take 365 (afterPeak data T) = [] \<longrightarrow>
        bottomAfterPeak data T = \<lparr>timestamp = 0, date = '''', price = price (peak data T)\<rparr>
        \<and> val (bottomPrice (crashData (analysis data halving T)))
            - val (peakPrice (postHalvingData (analysis data halving T))) = 0"
    using bottom_empty[of data T] by (simp add: fields peakPrice_of_eq)
  show ?thesis
    using pk sentinel tr dflt fields by blast
qed

theorem peak_and_trough_in_their_windows_witness:
  "postHalvingDataPoints sampleSeries 1000 \<noteq> []
   \<and> 1000 < timestamp (peak sampleSeries 1000)
   \<and> timestamp (peak sampleSeries 1000) \<le> 1000 + 730 * 86400000
   \<and> take 365 (afterPeak sampleSeries 1000) \<noteq> []
   \<and> timestamp (peak sampleSeries 1000) < timestamp (bottomAfterPeak sampleSeries 1000)
   \<and> take 365 (afterPeak shortSeries 1000) = []
   \<and> bottomAfterPeak shortSeries 1000 = \<lparr>timestamp = 0, date = '''', price = dbl 5\<rparr>
   \<and> postHalvingDataPoints epochSeries 1354060800000 = []
   \<and> peak epochSeries 1354060800000 = \<lparr>timestamp = 0, date = '''', price = dbl 0\<rparr>"
proof -
  have p: "postHalvingDataPoints sampleSeries 1000 \<noteq> []" by (simp add: sample_post)
  have w: "take 365 (afterPeak sampleSeries 1000) \<noteq> []" by (simp add: sample_afterPeak)
  have e: "take 365 (afterPeak shortSeries 1000) = []" by (simp add: short_afterPeak)
  have q: "postHalvingDataPoints epochSeries 1354060800000 = []" by (rule epoch_post)
  note full = peak_and_trough_in_their_windows[of sampleSeries 1000 sampleEvent]
  note short = peak_and_trough_in_their_windows[of shortSeries 1000 sampleEvent]
  note epoch = peak_and_trough_in_their_windows[of epochSeries 1354060800000 sampleEvent]
  from full p have a: "1000 < timestamp (peak sampleSeries 1000)
      \<and> timestamp (peak sampleSeries 1000) \<le> 1000 + 730 * 86400000" by blast
  from full w have b: "timestamp (peak sampleSeries 1000)
      < timestamp (bottomAfterPeak sampleSeries 1000)" by blast
  from short e have c: "bottomAfterPeak shortSeries 1000 =
      \<lparr>timestamp = 0, date = '''', price = price (peak shortSeries 1000)\<rparr>" by blast
  from epoch q have d: "peak epochSeries 1354060800000 =
      \<lparr>timestamp = 0, date = '''', price = dbl 0\<rparr>" by blast
  from p w e q a b c d show ?thesis by (simp add: short_peak)
qed

text \<open>
  C4 as stated fails on a series that ends the day before the first halving: the
  post-window is empty, so the peak is the sentinel stamped \<open>0\<close>, which is not in the
  window; the trough is the series' own point, dated before the halving; and the record
  is not zero-change: bottom price and peak price differ by \<open>10\<close>, the gain after the
  halving is \<open>-100\<close> and the drawdown is infinite.
\<close>

theorem sentinel_peak_counterexample:
  "postHalvingDataPoints dayBeforeSeries (getTime ''2012-11-28'') = []
   \<and> timestamp (peak dayBeforeSeries (getTime ''2012-11-28'')) = 0
   \<and> \<not> getTime ''2012-11-28'' < timestamp (peak dayBeforeSeries (getTime ''2012-11-28''))
   \<and> timestamp (bottomAfterPeak dayBeforeSeries (getTime ''2012-11-28''))
        < getTime ''2012-11-28''
   \<and> val (bottomPrice (crashData (hd (analyses dayBeforeSeries))))
        - val (peakPrice (postHalvingData (hd (analyses dayBeforeSeries)))) = 10
   \<and> PostHalvingData.percentageGain (postHalvingData (hd (analyses dayBeforeSeries)))
        = Fin (dbl (- 100))
   \<and> percentageFromPeak (crashData (hd (analyses dayBeforeSeries))) = PInf"
proof -
  have nz: "val (dbl 10) \<noteq> 0" by (simp add: sample_vals)
  have gain: "PostHalvingData.percentageGain (postHalvingData (hd (analyses dayBeforeSeries)))
      = Fin (dbl (- 100))"
    using percent_minus_hundred[OF nz]
    by (simp add: hd_analyses analysis_def postHalvingGain_def peakPrice_of_eq dayBefore_peak
        dayBefore_halvingPrice)
  have "percentageFromPeak (crashData (hd (analyses dayBeforeSeries))) =
      js_mul (js_div (js_sub (dbl 10) (dbl 0)) (dbl 0)) (dbl 100)"
    by (simp add: hd_analyses analysis_def crashPercentage_eq dayBefore_peak dayBefore_bottom)
  also have "\<dots> = PInf"
    by (simp only: js_sub_zero_right percent_zero_divisor[OF val_zero]) (simp add: sample_vals)
  finally have crash: "percentageFromPeak (crashData (hd (analyses dayBeforeSeries))) = PInf" .
  have diff: "val (bottomPrice (crashData (hd (analyses dayBeforeSeries))))
        - val (peakPrice (postHalvingData (hd (analyses dayBeforeSeries)))) = 10"
    by (simp add: hd_analyses analysis_def peakPrice_of_eq dayBefore_peak dayBefore_bottom
        sample_vals val_zero)
  from gain crash diff show ?thesis
    by (simp add: getTime_first dayBefore_post dayBefore_peak dayBefore_bottom)
qed

text \<open>
  C6, amended. When the post-window is empty the sentinel peak has timestamp \<open>0\<close> and
  price \<open>0\<close>, so the crash-window filter keeps exactly the points with a positive
  timestamp: every point of the series when all its timestamps are positive. When the
  filter keeps a point, the trough is the first-occurring minimum among the first 365
  kept points, whatever their dates; when it keeps none, the trough is the default
  \<open>{price: 0, date: '', timestamp: 0}\<close>. In both cases the drawdown is computed with
  the divisor \<open>0\<close>, which gives a value that is not finite.
\<close>

theorem empty_post_window_crash:
  assumes "postHalvingDataPoints data T = []"
  shows "timestamp (peak data T) = 0 \<and> val (price (peak data T)) = 0
   \<and> afterPeak data T = filter (\<lambda>d. 0 < timestamp d) data
   \<and> ((\<forall>d\<in>set data. 0 < timestamp d) \<longrightarrow> afterPeak data T = data)
   \<and> (take 365 (filter (\<lambda>d. 0 < timestamp d) data) \<noteq> [] \<longrightarrow>
        (\<exists>ys zs. take 365 (filter (\<lambda>d. 0 < timestamp d) data) = ys @ bottomAfterPeak data T # zs
           \<and> (\<forall>y\<in>set ys. val (price (bottomAfterPeak data T)) < val (price y))
           \<and> (\<forall>z\<in>set zs. val (price (bottomAfterPeak data T)) \<le> val (price z))))
   \<and> (take 365 (filter (\<lambda>d. 0 < timestamp d) data) = [] \<longrightarrow>
        bottomAfterPeak data T = \<lparr>timestamp = 0, date = '''', price = dbl 0\<rparr>)
   \<and> percentageFromPeak (crashData (analysis data halving T)) =
        js_mul (js_div (js_sub (price (bottomAfterPeak data T)) (dbl 0)) (dbl 0)) (dbl 100)
   \<and> \<not> isFinite (percentageFromPeak (crashData (analysis data halving T)))"
proof -
  have pk: "peak data T = \<lparr>timestamp = 0, date = '''', price = dbl 0\<rparr>"
    using assms by (rule peak_empty)
  have ap: "afterPeak data T = filter (\<lambda>d. 0 < timestamp d) data"
    by (simp add: afterPeak_def pk)
  have all: "(\<forall>d\<in>set data. 0 < timestamp d) \<longrightarrow> afterPeak data T = data"
    by (simp add: ap)
  have pct: "percentageFromPeak (crashData (analysis data halving T)) =
        js_mul (js_div (js_sub (price (bottomAfterPeak data T)) (dbl 0)) (dbl 0)) (dbl 100)"
    by (simp add: analysis_def crashPercentage_eq pk)
  have nf: "\<not> isFinite (percentageFromPeak (crashData (analysis data halving T)))"
    unfolding pct using val_zero by (rule zero_divisor_not_finite)
  have split: "take 365 (filter (\<lambda>d. 0 < timestamp d) data) \<noteq> [] \<longrightarrow>
        (\<exists>ys zs. take 365 (filter (\<lambda>d. 0 < timestamp d) data) = ys @ bottomAfterPeak data T # zs
           \<and> (\<forall>y\<in>set ys. val (price (bottomAfterPeak data T)) < val (price y))
           \<and> (\<forall>z\<in>set zs. val (price (bottomAfterPeak data T)) \<le> val (price z)))"
    using bottom_split[of data T] by (simp add: ap)
  have dflt: "take 365 (filter (\<lambda>d. 0 < timestamp d) data) = [] \<longrightarrow>
        bottomAfterPeak data T = \<lparr>timestamp = 0, date = '''', price = dbl 0\<rparr>"
    using bottom_empty[of data T] by (simp add: ap peakPrice_of_eq pk)
  show ?thesis using pk ap all pct nf split dflt by (simp add: val_zero)
qed

theorem empty_post_window_crash_witness:
  "postHalvingDataPoints sampleSeries 5000 = []
   \<and> list_all (\<lambda>d. 0 < timestamp d) sampleSeries
   \<and> afterPeak sampleSeries 5000 = sampleSeries
   \<and> take 365 (filter (\<lambda>d. 0 < timestamp d) sampleSeries) \<noteq> []
   \<and> (\<exists>ys zs. take 365 (filter (\<lambda>d. 0 < timestamp d) sampleSeries) =
          ys @ \<lparr>timestamp = 1004, date = ''e'', price = dbl 3\<rparr> # zs
        \<and> (\<forall>y\<in>set ys. 3 < val (price y)) \<and> (\<forall>z\<in>set zs. 3 \<le> val (price z)))
   \<and> timestamp (bottomAfterPeak sampleSeries 5000) < 5000
   \<and> percentageFromPeak (crashData (analysis sampleSeries sampleEvent 5000)) = PInf
   \<and> postHalvingDataPoints epochSeries 1354060800000 = []
   \<and> take 365 (filter (\<lambda>d. 0 < timestamp d) epochSeries) = []
   \<and> bottomAfterPeak epochSeries 1354060800000 = \<lparr>timestamp = 0, date = '''', price = dbl 0\<rparr>"
proof -
  have pos: "\<forall>d\<in>set sampleSeries. 0 < timestamp d" by (simp add: sampleSeries_def)
  have la: "list_all (\<lambda>d. 0 < timestamp d) sampleSeries" by (simp add: sampleSeries_def)
  have ne: "take 365 (filter (\<lambda>d. 0 < timestamp d) sampleSeries) \<noteq> []"
    by (simp add: sampleSeries_def)
  have none: "take 365 (filter (\<lambda>d. 0 < timestamp d) epochSeries) = []"
    by (simp add: epochSeries_def)
  note t = empty_post_window_crash[OF late_post, of sampleEvent]
  note u = empty_post_window_crash[OF epoch_post, of sampleEvent]
  from t pos have a: "afterPeak sampleSeries 5000 = sampleSeries" by blast
  from t ne have b: "\<exists>ys zs. take 365 (filter (\<lambda>d. 0 < timestamp d) sampleSeries) =
          ys @ bottomAfterPeak sampleSeries 5000 # zs
        \<and> (\<forall>y\<in>set ys. val (price (bottomAfterPeak sampleSeries 5000)) < val (price y))
        \<and> (\<forall>z\<in>set zs. val (price (bottomAfterPeak sampleSeries 5000)) \<le> val (price z))"
    by blast
  from t have "percentageFromPeak (crashData (analysis sampleSeries sampleEvent 5000)) =
        js_mul (js_div (js_sub (price (bottomAfterPeak sampleSeries 5000)) (dbl 0)) (dbl 0))
          (dbl 100)" by blast
  also have "\<dots> = PInf"
    by (simp only: js_sub_zero_right percent_zero_divisor[OF val_zero])
       (simp add: late_bottom sample_vals)
  finally have c: "percentageFromPeak (crashData (analysis sampleSeries sampleEvent 5000)) = PInf" .
  from u none have d: "bottomAfterPeak epochSeries 1354060800000 =
      \<lparr>timestamp = 0, date = '''', price = dbl 0\<rparr>" by blast
  from late_post la a ne b c epoch_post none d show ?thesis
    by (simp add: late_bottom sample_vals)
qed

text \<open>
  C6 as stated fails on the series whose only point is stamped \<open>0\<close>: the series is
  not empty and the post-window of the first event is empty, yet the crash-window
  filter keeps no point.
\<close>

theorem crash_filter_epoch_counterexample:
  "epochSeries \<noteq> []
   \<and> postHalvingDataPoints epochSeries (getTime ''2012-11-28'') = []
   \<and> afterPeak epochSeries (getTime ''2012-11-28'') = []
   \<and> afterPeak epochSeries (getTime ''2012-11-28'') \<noteq> epochSeries"
  by (simp add: getTime_first epoch_post epoch_afterPeak) (simp add: epochSeries_def)

text \<open>
  C7. When the post-window is empty the peak is the sentinel, the reported peak price is
  \<open>0\<close> and the reported peak date is empty; the reported gain is
  \<open>(0 - halvingPrice) / halvingPrice * 100\<close>, which is \<open>-100\<close> whenever
  \<open>halvingPrice\<close> is positive.
\<close>

theorem empty_post_window_gain:
  assumes "postHalvingDataPoints data T = []"
  shows "peak data T = \<lparr>timestamp = 0, date = '''', price = dbl 0\<rparr>
   \<and> peakPrice (postHalvingData (analysis data halving T)) = dbl 0
   \<and> peakDate (postHalvingData (analysis data halving T)) = ''''
   \<and> PostHalvingData.percentageGain (postHalvingData (analysis data halving T)) =
        js_mul (js_div (js_sub (dbl 0)
                          (PostHalvingData.halvingPrice (postHalvingData (analysis data halving T))))
                       (PostHalvingData.halvingPrice (postHalvingData (analysis data halving T))))
               (dbl 100)
   \<and> (0 < val (PostHalvingData.halvingPrice (postHalvingData (analysis data halving T))) \<longrightarrow>
        PostHalvingData.percentageGain (postHalvingData (analysis data halving T))
          = Fin (dbl (- 100)))"
proof -
  have pk: "peak data T = \<lparr>timestamp = 0, date = '''', price = dbl 0\<rparr>"
    using assms by (rule peak_empty)
  have hp: "PostHalvingData.halvingPrice (postHalvingData (analysis data halving T)) =
      halvingPrice_of data halving T"
    by (simp add: analysis_def)
  have gain: "PostHalvingData.percentageGain (postHalvingData (analysis data halving T)) =
      js_mul (js_div (js_sub (dbl 0) (halvingPrice_of data halving T))
                     (halvingPrice_of data halving T)) (dbl 100)"
    by (simp add: analysis_def postHalvingGain_def peakPrice_of_eq pk)
  have minus: "0 < val (halvingPrice_of data halving T) \<longrightarrow>
      js_mul (js_div (js_sub (dbl 0) (halvingPrice_of data halving T))
                     (halvingPrice_of data halving T)) (dbl 100) = Fin (dbl (- 100))"
    using percent_minus_hundred[of "halvingPrice_of data halving T"] by simp
  have fields: "peakPrice (postHalvingData (analysis data halving T)) = dbl 0"
    "peakDate (postHalvingData (analysis data halving T)) = ''''"
    by (simp_all add: analysis_def peakPrice_of_eq peakDate_of_def pk)
  show ?thesis unfolding hp using pk gain minus fields by simp
qed

theorem empty_post_window_gain_witness:
  "postHalvingDataPoints sampleSeries 5000 = []
   \<and> 0 < val (PostHalvingData.halvingPrice (postHalvingData (analysis sampleSeries sampleEvent 5000)))
   \<and> peakPrice (postHalvingData (analysis sampleSeries sampleEvent 5000)) = dbl 0
   \<and> PostHalvingData.percentageGain (postHalvingData (analysis sampleSeries sampleEvent 5000))
       = Fin (dbl (- 100))"
proof -
  have hp: "PostHalvingData.halvingPrice (postHalvingData (analysis sampleSeries sampleEvent 5000))
      = dbl 3"
    by (simp add: analysis_def late_halvingPrice)
  have pos: "0 < val (dbl 3)" by (simp add: sample_vals)
  note t = empty_post_window_gain[OF late_post, of sampleEvent]
  from t have a: "peakPrice (postHalvingData (analysis sampleSeries sampleEvent 5000)) = dbl 0"
    by blast
  from t pos have b:
    "PostHalvingData.percentageGain (postHalvingData (analysis sampleSeries sampleEvent 5000))
       = Fin (dbl (- 100))"
    unfolding hp by blast
  from late_post pos a b show ?thesis unfolding hp by blast
qed

text \<open>
  C8. On the series \<open>[(t0,100), (t1,200), (t2,150)]\<close> with the event at \<open>t1\<close>,
  \<open>t0\<close> in the pre-window and \<open>t2\<close> in the post-window, the pre-window is the
  first two points and the post-window the third; the gain before the halving is
  \<open>100\<close>, the peak is \<open>(t2,150)\<close> and the gain after the halving is \<open>-25\<close>.
\<close>

theorem three_point_example:
  assumes "t1 - 365 * 86400000 \<le> t0" and "t0 \<le> t1"
    and "t1 < t2" and "t2 \<le> t1 + 730 * 86400000"
  shows "preHalvingDataPoints
       [\<lparr>timestamp = t0, date = d0, price = dbl 100\<rparr>,
        \<lparr>timestamp = t1, date = d1, price = dbl 200\<rparr>,
        \<lparr>timestamp = t2, date = d2, price = dbl 150\<rparr>] t1 =
       [\<lparr>timestamp = t0, date = d0, price = dbl 100\<rparr>,
        \<lparr>timestamp = t1, date = d1, price = dbl 200\<rparr>]
   \<and> postHalvingDataPoints
       [\<lparr>timestamp = t0, date = d0, price = dbl 100\<rparr>,
        \<lparr>timestamp = t1, date = d1, price = dbl 200\<rparr>,
        \<lparr>timestamp = t2, date = d2, price = dbl 150\<rparr>] t1 =
       [\<lparr>timestamp = t2, date = d2, price = dbl 150\<rparr>]
   \<and> PreHalvingData.percentageGain (preHalvingData (analysis
       [\<lparr>timestamp = t0, date = d0, price = dbl 100\<rparr>,
        \<lparr>timestamp = t1, date = d1, price = dbl 200\<rparr>,
        \<lparr>timestamp = t2, date = d2, price = dbl 150\<rparr>] halving t1)) = Fin (dbl 100)
   \<and> peak
       [\<lparr>timestamp = t0, date = d0, price = dbl 100\<rparr>,
        \<lparr>timestamp = t1, date = d1, price = dbl 200\<rparr>,
        \<lparr>timestamp = t2, date = d2, price = dbl 150\<rparr>] t1 =
       \<lparr>timestamp = t2, date = d2, price = dbl 150\<rparr>
   \<and> PostHalvingData.percentageGain (postHalvingData (analysis
       [\<lparr>timestamp = t0, date = d0, price = dbl 100\<rparr>,
        \<lparr>timestamp = t1, date = d1, price = dbl 200\<rparr>,
        \<lparr>timestamp = t2, date = d2, price = dbl 150\<rparr>] halving t1)) = Fin (dbl (- 25))"
proof -
  let ?data = "[\<lparr>timestamp = t0, date = d0, price = dbl 100\<rparr>,
        \<lparr>timestamp = t1, date = d1, price = dbl 200\<rparr>,
        \<lparr>timestamp = t2, date = d2, price = dbl 150\<rparr>]"
  have pre: "preHalvingDataPoints ?data t1 =
      [\<lparr>timestamp = t0, date = d0, price = dbl 100\<rparr>,
       \<lparr>timestamp = t1, date = d1, price = dbl 200\<rparr>]"
    using assms by (simp add: preHalvingDataPoints_def preHalvingStart_def)
  have post: "postHalvingDataPoints ?data t1 = [\<lparr>timestamp = t2, date = d2, price = dbl 150\<rparr>]"
    using assms by (simp add: postHalvingDataPoints_def postHalvingEnd_def)
  have pk: "peak ?data t1 = \<lparr>timestamp = t2, date = d2, price = dbl 150\<rparr>"
    by (simp add: peak_def post higher_def)
  have sp: "startPrice_of ?data t1 = dbl 100"
    by (simp add: startPrice_of_eq pre)
  have hp: "halvingPrice_of ?data halving t1 = dbl 200"
    by (simp add: halvingPrice_of_eq pre sample_vals)
  have a1: "js_mul (js_div (js_sub (dbl 200) (dbl 100)) (dbl 100)) (dbl 100) = Fin (dbl 100)"
    by (simp add: js_sub_def sample_vals val_100 val_dbl fl_exact isDouble_1 isDouble_100)
  have a2: "js_mul (js_div (js_sub (dbl 150) (dbl 200)) (dbl 200)) (dbl 100) = Fin (dbl (- 25))"
    by (simp add: js_sub_def sample_vals val_100 val_dbl fl_exact isDouble_minus sample_doubles)
  have g1: "PreHalvingData.percentageGain (preHalvingData (analysis ?data halving t1))
      = Fin (dbl 100)"
    using a1 by (simp add: analysis_def preHalvingGain_def sp hp)
  have g2: "PostHalvingData.percentageGain (postHalvingData (analysis ?data halving t1))
      = Fin (dbl (- 25))"
    using a2 by (simp add: analysis_def postHalvingGain_def peakPrice_of_eq pk hp)
  from pre post pk g1 g2 show ?thesis by simp
qed

theorem three_point_example_witness:
  "(86400000::int) - 365 * 86400000 \<le> 0 \<and> (0::int) \<le> 86400000
   \<and> (86400000::int) < 172800000 \<and> (172800000::int) \<le> 86400000 + 730 * 86400000
   \<and> PreHalvingData.percentageGain (preHalvingData (analysis
       [\<lparr>timestamp = 0, date = ''1970-01-01'', price = dbl 100\<rparr>,
        \<lparr>timestamp = 86400000, date = ''1970-01-02'', price = dbl 200\<rparr>,
        \<lparr>timestamp = 172800000, date = ''1970-01-03'', price = dbl 150\<rparr>] sampleEvent 86400000))
       = Fin (dbl 100)
   \<and> peak
       [\<lparr>timestamp = 0, date = ''1970-01-01'', price = dbl 100\<rparr>,
        \<lparr>timestamp = 86400000, date = ''1970-01-02'', price = dbl 200\<rparr>,
        \<lparr>timestamp = 172800000, date = ''1970-01-03'', price = dbl 150\<rparr>] 86400000 =
       \<lparr>timestamp = 172800000, date = ''1970-01-03'', price = dbl 150\<rparr>
   \<and> PostHalvingData.percentageGain (postHalvingData (analysis
       [\<lparr>timestamp = 0, date = ''1970-01-01'', price = dbl 100\<rparr>,
        \<lparr>timestamp = 86400000, date = ''1970-01-02'', price = dbl 200\<rparr>,
        \<lparr>timestamp = 172800000, date = ''1970-01-03'', price = dbl 150\<rparr>] sampleEvent 86400000))
       = Fin (dbl (- 25))"
proof -
  have h: "(86400000::int) - 365 * 86400000 \<le> 0" "(0::int) \<le> 86400000"
    "(86400000::int) < 172800000" "(172800000::int) \<le> 86400000 + 730 * 86400000"
    by simp_all
  from three_point_example[OF h, of "''1970-01-01''" "''1970-01-02''" "''1970-01-03''" sampleEvent] h
  show ?thesis by simp
qed

text \<open>
  C10, amended. When \<open>startPrice\<close> is zero the gain before the halving is an infinity
  with the sign of \<open>halvingPrice\<close>, or NaN when \<open>halvingPrice\<close> is zero too; it is
  not finite, the computation has no failing branch, and the record holding the value
  is stored in the state as computed, for each event of the table. \<open>halvingPrice\<close> is
  never zero for an event of the table, whatever the series: a missing or zero last
  pre-window price is replaced by the event's \<open>priceAtHalving\<close>, which is not zero, so
  the gain after the halving is never a division by zero.
\<close>

theorem zero_divisor_gains:
  "(val (startPrice (preHalvingData (analysis data halving T))) = 0 \<longrightarrow>
      PreHalvingData.percentageGain (preHalvingData (analysis data halving T)) =
        (if 0 < val (PreHalvingData.halvingPrice (preHalvingData (analysis data halving T)))
         then PInf
         else if val (PreHalvingData.halvingPrice (preHalvingData (analysis data halving T))) < 0
         then NInf
         else NaN)
      \<and> \<not> isFinite (PreHalvingData.percentageGain (preHalvingData (analysis data halving T))))
   \<and> (h \<in> set halvingEvents \<longrightarrow>
        val (PostHalvingData.halvingPrice (postHalvingData (analysis data h T))) \<noteq> 0)
   \<and> (h \<in> set halvingEvents \<longrightarrow>
        analysis data h (getTime (HalvingEvent.date h))
          \<in> set (cycleAnalysis (performBacktest data s)))"
proof -
  have pre: "val (startPrice_of data T) = 0 \<longrightarrow>
      preHalvingGain data halving T =
        (if 0 < val (halvingPrice_of data halving T) then PInf
         else if val (halvingPrice_of data halving T) < 0 then NInf else NaN)
      \<and> \<not> isFinite (preHalvingGain data halving T)"
  proof
    assume z: "val (startPrice_of data T) = 0"
    then have sp: "startPrice_of data T = dbl 0" by (simp add: val_eq_0_iff)
    have g: "preHalvingGain data halving T =
        js_mul (js_div (Fin (halvingPrice_of data halving T)) (dbl 0)) (dbl 100)"
      by (simp add: preHalvingGain_def sp js_sub_zero_right)
    have "preHalvingGain data halving T =
        (if 0 < val (halvingPrice_of data halving T) then PInf
         else if val (halvingPrice_of data halving T) < 0 then NInf else NaN)"
      unfolding g using val_zero by (rule percent_zero_divisor)
    moreover have "\<not> isFinite (preHalvingGain data halving T)"
      unfolding g using val_zero by (rule zero_divisor_not_finite)
    ultimately show "preHalvingGain data halving T =
        (if 0 < val (halvingPrice_of data halving T) then PInf
         else if val (halvingPrice_of data halving T) < 0 then NInf else NaN)
      \<and> \<not> isFinite (preHalvingGain data halving T)" ..
  qed
  have table: "h \<in> set halvingEvents \<longrightarrow> val (halvingPrice_of data h T) \<noteq> 0"
    using table_halvingPrice_nonzero[of h data T] by blast
  have stored: "h \<in> set halvingEvents \<longrightarrow>
        analysis data h (getTime (HalvingEvent.date h))
          \<in> set (cycleAnalysis (performBacktest data s))"
    by (simp add: performBacktest_def analyses_def analysesOver_def)
  have fields: "startPrice (preHalvingData (analysis data halving T)) = startPrice_of data T"
    "PreHalvingData.halvingPrice (preHalvingData (analysis data halving T)) =
       halvingPrice_of data halving T"
    "PreHalvingData.percentageGain (preHalvingData (analysis data halving T)) =
       preHalvingGain data halving T"
    "PostHalvingData.halvingPrice (postHalvingData (analysis data h T)) =
       halvingPrice_of data h T"
    by (simp_all add: analysis_def)
  show ?thesis unfolding fields using pre table stored by blast
qed

theorem zero_divisor_gains_witness:
  "val (startPrice (preHalvingData (analysis [] sampleEvent 1000))) = 0
   \<and> PreHalvingData.percentageGain (preHalvingData (analysis [] sampleEvent 1000)) = PInf
   \<and> hd halvingEvents \<in> set halvingEvents
   \<and> val (PostHalvingData.halvingPrice (postHalvingData (analysis [] (hd halvingEvents) 1000)))
       \<noteq> 0
   \<and> analysis [] (hd halvingEvents) (getTime (HalvingEvent.date (hd halvingEvents)))
        \<in> set (cycleAnalysis (performBacktest [] initialState))"
proof -
  have sp: "val (startPrice (preHalvingData (analysis [] sampleEvent 1000))) = 0"
    by (simp add: analysis_def empty_startPrice val_zero)
  have hp: "val (PreHalvingData.halvingPrice (preHalvingData (analysis [] sampleEvent 1000))) = 7"
    by (simp add: analysis_def empty_halvingPrice sampleEvent_def sample_vals)
  have mem: "hd halvingEvents \<in> set halvingEvents"
    by (simp add: halvingEvents_def)
  note t = zero_divisor_gains[of "[]" sampleEvent 1000 "hd halvingEvents" initialState]
  from t sp have "PreHalvingData.percentageGain (preHalvingData (analysis [] sampleEvent 1000)) =
        (if 0 < val (PreHalvingData.halvingPrice (preHalvingData (analysis [] sampleEvent 1000)))
         then PInf
         else if val (PreHalvingData.halvingPrice (preHalvingData (analysis [] sampleEvent 1000))) < 0
         then NInf
         else NaN)" by blast
  then have g: "PreHalvingData.percentageGain (preHalvingData (analysis [] sampleEvent 1000)) = PInf"
    by (simp add: hp)
  from t mem have nz:
    "val (PostHalvingData.halvingPrice (postHalvingData (analysis [] (hd halvingEvents) 1000))) \<noteq> 0"
    by blast
  from t mem have st: "analysis [] (hd halvingEvents) (getTime (HalvingEvent.date (hd halvingEvents)))
        \<in> set (cycleAnalysis (performBacktest [] initialState))" by blast
  from sp g mem nz st show ?thesis by blast
qed

text \<open>
  C10 as stated fails for \<open>halvingPrice\<close> as the specification defines it, the price of
  the last pre-window point: on the series whose only point is priced \<open>0\<close> on the day
  of the first halving that price is zero, yet the divisor the program uses is the
  table's \<open>12.35\<close> and the gain after the halving is the finite value \<open>-100\<close>.
\<close>

theorem zero_halving_price_counterexample:
  "val (price (last (preHalvingDataPoints zeroPriceSeries (getTime ''2012-11-28'')))) = 0
   \<and> PostHalvingData.halvingPrice (postHalvingData (hd (analyses zeroPriceSeries))) = dbl 12.35
   \<and> val (PostHalvingData.halvingPrice (postHalvingData (hd (analyses zeroPriceSeries)))) \<noteq> 0
   \<and> PostHalvingData.percentageGain (postHalvingData (hd (analyses zeroPriceSeries)))
       = Fin (dbl (- 100))
   \<and> isFinite (PostHalvingData.percentageGain (postHalvingData (hd (analyses zeroPriceSeries))))"
proof -
  have "PostHalvingData.halvingPrice (postHalvingData (hd (analyses zeroPriceSeries))) =
      priceAtHalving (hd halvingEvents)"
    by (simp add: hd_analyses analysis_def zeroPrice_halvingPrice)
  also have "\<dots> = dbl 12.35" by (rule first_price)
  finally have hp:
    "PostHalvingData.halvingPrice (postHalvingData (hd (analyses zeroPriceSeries))) = dbl 12.35" .
  have nz: "val (dbl 12.35) \<noteq> 0" by (rule table_prices_nonzero(1))
  have pk: "peak zeroPriceSeries 1354060800000 = \<lparr>timestamp = 0, date = '''', price = dbl 0\<rparr>"
    using zeroPrice_post by (rule peak_empty)
  have "PostHalvingData.percentageGain (postHalvingData (hd (analyses zeroPriceSeries))) =
      js_mul (js_div (js_sub (dbl 0) (priceAtHalving (hd halvingEvents)))
                     (priceAtHalving (hd halvingEvents))) (dbl 100)"
    by (simp add: hd_analyses analysis_def postHalvingGain_def peakPrice_of_eq pk
        zeroPrice_halvingPrice)
  also have "\<dots> = Fin (dbl (- 100))"
    using first_price_nonzero by (rule percent_minus_hundred)
  finally have gain:
    "PostHalvingData.percentageGain (postHalvingData (hd (analyses zeroPriceSeries)))
       = Fin (dbl (- 100))" .
  have fin: "isFinite (PostHalvingData.percentageGain (postHalvingData (hd (analyses zeroPriceSeries))))"
    unfolding gain by simp
  have hpnz: "val (PostHalvingData.halvingPrice (postHalvingData (hd (analyses zeroPriceSeries)))) \<noteq> 0"
    unfolding hp by (rule nz)
  have last0: "val (price (last (preHalvingDataPoints zeroPriceSeries (getTime ''2012-11-28'')))) = 0"
    by (simp add: getTime_first zeroPrice_pre val_zero)
  from last0 hp hpnz gain fin show ?thesis by blast
qed

text \<open>
  C5, amended. When the load fails (the request rejects, the body is not JSON, the JSON
  has no \<open>prices\<close> array, or formatting one of the dates throws), the series and the
  analysis list stay empty, one message is logged, and \<open>loading\<close> is cleared: the
  page leaves the loading indicator and renders the dashboard over the empty series and
  the empty analysis list.
\<close>

theorem failed_load_state:
  assumes "formattedData fmt r = None"
  shows "priceData (session fmt r) = []
   \<and> cycleAnalysis (session fmt r) = []
   \<and> console (session fmt r) = [''Error fetching data:'']
   \<and> loading (session fmt r) = False
   \<and> render (session fmt r) = Dashboard [] []"
  using assms
  by (simp add: session_def fetchHistoricalData_def initialState_def render_def getChartData_def)

theorem failed_load_state_witness:
  "formattedData sampleFormat NetworkError = None
   \<and> formattedData sampleFormat NotJson = None
   \<and> formattedData sampleFormat (Json None) = None
   \<and> formattedData sampleFormat (Json (Some [(0, dbl 5), (- 1, dbl 7)])) = None
   \<and> priceData (session sampleFormat (Json (Some [(0, dbl 5), (- 1, dbl 7)]))) = []
   \<and> cycleAnalysis (session sampleFormat (Json (Some [(0, dbl 5), (- 1, dbl 7)]))) = []
   \<and> console (session sampleFormat NetworkError) = [''Error fetching data:'']
   \<and> render (session sampleFormat NotJson) = Dashboard [] []
   \<and> render (session sampleFormat (Json None)) = Dashboard [] []"
proof -
  have a: "formattedData sampleFormat NetworkError = None"
    and b: "formattedData sampleFormat NotJson = None"
    and c: "formattedData sampleFormat (Json None) = None"
    and d: "formattedData sampleFormat (Json (Some [(0, dbl 5), (- 1, dbl 7)])) = None"
    by (simp_all add: sampleFormat_def)
  from failed_load_state[OF a] failed_load_state[OF b] failed_load_state[OF c]
    failed_load_state[OF d] a b c d
  show ?thesis by simp
qed

text \<open>
  C5 as stated fails at a rejected request: \<open>loading\<close> is cleared by the
  \<open>catch\<close> block, so what is rendered afterwards is not the loading indicator.
\<close>

theorem failed_load_indicator_counterexample:
  "formattedData sampleFormat NetworkError = None
   \<and> loading (session sampleFormat NetworkError) = False
   \<and> render (session sampleFormat NetworkError) \<noteq> LoadingIndicator"
  by (simp add: session_def fetchHistoricalData_def initialState_def render_def)

end
